theory Spec2Isabelle
  imports Main
begin

section \<open>Text\<close>

text \<open>
  A Python \<open>str\<close> is modelled as a \<open>string\<close> holding its UTF-8 encoding. The status
  symbols the script prints are not ASCII, so each is a named constant that spells out
  its bytes. The only substring test of the script has an ASCII needle, for which a match
  on code points and a match on UTF-8 bytes coincide.
\<close>

definition wastebasket :: string where
  "wastebasket = [CHR 0xF0, CHR 0x9F, CHR 0x97, CHR 0x91, CHR 0xEF, CHR 0xB8, CHR 0x8F]"

definition check_mark :: string where
  "check_mark = [CHR 0xE2, CHR 0x9C, CHR 0x85]"

definition warning_sign :: string where
  "warning_sign = [CHR 0xE2, CHR 0x9A, CHR 0xA0, CHR 0xEF, CHR 0xB8, CHR 0x8F]"

definition bust :: string where
  "bust = [CHR 0xF0, CHR 0x9F, CHR 0x91, CHR 0xA4]"

definition info_sign :: string where
  "info_sign = [CHR 0xE2, CHR 0x84, CHR 0xB9, CHR 0xEF, CHR 0xB8, CHR 0x8F]"

definition rocket :: string where
  "rocket = [CHR 0xF0, CHR 0x9F, CHR 0x9A, CHR 0x80]"

definition memo :: string where
  "memo = [CHR 0xF0, CHR 0x9F, CHR 0x93, CHR 0x9D]"

definition cross_mark :: string where
  "cross_mark = [CHR 0xE2, CHR 0x9D, CHR 0x8C]"

definition seedling :: string where
  "seedling = [CHR 0xF0, CHR 0x9F, CHR 0x8C, CHR 0xB1]"

definition magnifier :: string where
  "magnifier = [CHR 0xF0, CHR 0x9F, CHR 0x94, CHR 0x8D]"

definition bullet :: string where
  "bullet = [CHR 0xE2, CHR 0x80, CHR 0xA2]"

definition newline :: string where
  "newline = [CHR 0x0A]"

text \<open>\<open>str(n)\<close> for a natural number and for an integer: decimal digits, most significant first.\<close>

fun str_nat :: "nat \<Rightarrow> string" where
  "str_nat n =
     (if n < 10 then [char_of (48 + n)]
      else str_nat (n div 10) @ [char_of (48 + n mod 10)])"

definition str_int :: "int \<Rightarrow> string" where
  "str_int i = (if i < 0 then ''-'' @ str_nat (nat (- i)) else str_nat (nat i))"

text \<open>
  \<open>needle in haystack\<close> on strings: \<open>starts_with\<close> tries the needle at the front,
  \<open>contains\<close> tries every position from left to right.
\<close>

fun starts_with :: "string \<Rightarrow> string \<Rightarrow> bool" where
  "starts_with s [] = True"
| "starts_with [] (c # cs) = False"
| "starts_with (d # ds) (c # cs) = (d = c \<and> starts_with ds cs)"

fun contains :: "string \<Rightarrow> string \<Rightarrow> bool" where
  "contains [] needle = (needle = [])"
| "contains (d # ds) needle = (starts_with (d # ds) needle \<or> contains ds needle)"

text \<open>\<open>x or ""\<close> where \<open>x\<close> is a string or \<open>None\<close>: the empty string replaces both
  \<open>None\<close> and the empty string.\<close>

definition or_empty :: "string option \<Rightarrow> string" where
  "or_empty x = (case x of None \<Rightarrow> [] | Some s \<Rightarrow> s)"

text \<open>
  \<open>Decimal\<close> values: a coefficient and the number of digits after the point, so that
  \<open>Decimal('0.045')\<close> is \<open>Decimal 45 3\<close> and \<open>Decimal('100')\<close> is \<open>Decimal 100 0\<close>.
  \<open>str_decimal\<close> is Python's plain notation, which is what \<open>str\<close> gives for every
  literal of this script.
\<close>

datatype decimal = Decimal int nat

definition plain_digits :: "nat \<Rightarrow> nat \<Rightarrow> string" where
  "plain_digits n s =
     (let ds = str_nat n;
          padded = replicate (Suc s - length ds) (CHR ''0'') @ ds;
          k = length padded - s
      in if s = 0 then ds else take k padded @ ''.'' @ drop k padded)"

definition str_decimal :: "decimal \<Rightarrow> string" where
  "str_decimal d =
     (case d of Decimal c s \<Rightarrow>
        (if c < 0 then ''-'' else []) @ plain_digits (nat \<bar>c\<bar>) s)"

section \<open>Exceptions and outcomes\<close>

text \<open>
  Everything the script can catch with \<open>except Exception\<close> is an \<open>exn\<close>. A function
  that may raise returns \<open>exn + 'a\<close>; a whole run of the script ends in an \<open>outcome\<close>:
  it returns from \<open>main\<close>, it calls \<open>sys.exit\<close>, or an exception escapes.
\<close>

datatype exn = Exception string | KeyError string

fun str_exn :: "exn \<Rightarrow> string" where
  "str_exn (Exception m) = m"
| "str_exn (KeyError k) = [CHR 0x27] @ k @ [CHR 0x27]"

datatype outcome = Returned | SysExit int | Raised exn

text \<open>The exit status of the process: 0 when \<open>main\<close> returns, the argument of
  \<open>sys.exit\<close>, and 1 when an exception escapes, which is how the interpreter ends a
  run on an uncaught exception.\<close>

fun exit_status :: "outcome \<Rightarrow> int" where
  "exit_status Returned = 0"
| "exit_status (SysExit n) = n"
| "exit_status (Raised e) = 1"

section \<open>The database rows\<close>

record user_row =
  user_clerk_id :: string
  user_display_name :: string
  user_years_until_retirement :: int
  user_target_retirement_income :: decimal

record account_row =
  acc_id :: nat
  acc_clerk_user_id :: string
  acc_name :: string
  acc_purpose :: string
  acc_cash_balance :: decimal
  acc_cash_interest :: decimal

record position_row =
  pos_account_id :: nat
  pos_symbol :: string
  pos_quantity :: decimal

text \<open>
  The tables the fixture touches, rows in insertion order, and the counter the next
  account id is taken from.
\<close>

record database =
  users :: "user_row list"
  accounts :: "account_row list"
  positions :: "position_row list"
  next_account_id :: nat

section \<open>The world: what the script prints and calls\<close>

text \<open>The validated payloads (\<open>UserCreate\<close>, \<open>AccountCreate\<close>, \<open>PositionCreate\<close>).\<close>

record UserCreate =
  clerk_user_id :: string
  display_name :: string
  years_until_retirement :: int
  target_retirement_income :: decimal

record AccountCreate =
  account_name :: string
  account_purpose :: string
  cash_balance :: decimal
  cash_interest :: decimal

record PositionCreate =
  account_id :: nat
  symbol :: string
  quantity :: decimal

text \<open>
  Every effect of the script is an event: a line printed, or a call to one of its
  collaborators (the database client, a subprocess, the repository layer).
\<close>

datatype event =
    Print string
  | Execute string
  | Query string
  | Run "string list"
  | FindByClerkId string
  | CreateUser UserCreate
  | FindByUser string
  | CreateAccount string AccountCreate
  | FindByAccount nat
  | AddPosition nat string decimal

record world =
  trace :: "event list"
  store :: database

fun is_call :: "event \<Rightarrow> bool" where
  "is_call (Print s) = False"
| "is_call e = True"

definition calls :: "event list \<Rightarrow> event list" where
  "calls es = filter is_call es"

text \<open>\<open>subprocess.CompletedProcess\<close>, as far as the script reads it.\<close>

record CompletedProcess =
  returncode :: int
  stdout :: "string option"
  stderr :: "string option"

type_synonym row = "(string \<times> int) list"

text \<open>
  The collaborators the script does not define are parameters of the model. Each statement,
  query and command of the script is issued at most once in a run, so an answer that
  depends on the argument alone covers every behaviour of a stateful collaborator.
  \<open>execute_raises sql = Some e\<close>: \<open>db.execute(sql)\<close> raises \<open>e\<close>;
  \<open>query_result sql\<close>: \<open>db.query(sql)\<close> raises or returns rows;
  \<open>run_result cmd\<close>: \<open>subprocess.run(cmd, ...)\<close> raises (the command cannot be
  launched) or returns the completed process;
  \<open>execute_effect\<close> and \<open>run_effect\<close>: what a successful statement and a subprocess
  do to the tables.
  The model starts where the collaborators exist: the two constructors
  (\<open>DataAPIClient()\<close>, \<open>Database()\<close>) are taken to succeed, and a row maps column
  names to integers.
\<close>

record env =
  execute_raises :: "string \<Rightarrow> exn option"
  execute_effect :: "string \<Rightarrow> database \<Rightarrow> database"
  query_result :: "string \<Rightarrow> exn + row list"
  run_result :: "string list \<Rightarrow> exn + CompletedProcess"
  run_effect :: "string list \<Rightarrow> database \<Rightarrow> database"

text \<open>Recording an event; \<open>print\<close> records a printed line.\<close>

definition emit :: "event \<Rightarrow> world \<Rightarrow> world" where
  "emit e w = w\<lparr>trace := trace w @ [e]\<rparr>"

definition print :: "string \<Rightarrow> world \<Rightarrow> world" where
  "print s w = emit (Print s) w"

text \<open>\<open>db.execute(sql)\<close> and \<open>db.query(sql)\<close>: the call is recorded, then it raises or
  returns as the client decides; a statement that succeeds has its effect on the tables.\<close>

definition db_execute :: "env \<Rightarrow> string \<Rightarrow> world \<Rightarrow> (exn + unit) \<times> world" where
  "db_execute env sql w =
     (let w1 = emit (Execute sql) w
      in case execute_raises env sql of
           Some e \<Rightarrow> (Inl e, w1)
         | None \<Rightarrow> (Inr (), w1\<lparr>store := execute_effect env sql (store w1)\<rparr>))"

definition db_query :: "env \<Rightarrow> string \<Rightarrow> world \<Rightarrow> (exn + row list) \<times> world" where
  "db_query env sql w = (query_result env sql, emit (Query sql) w)"

text \<open>Lines 30 to 37, \<open>run_cmd\<close>: \<open>subprocess.run\<close> raises when the command cannot
  be launched; otherwise the command is run to its end and its status and captured
  streams come back. Nothing in \<open>run_cmd\<close> catches the exception.\<close>

definition run_cmd :: "env \<Rightarrow> string list \<Rightarrow> world \<Rightarrow> (exn + CompletedProcess) \<times> world" where
  "run_cmd env cmd w =
     (let w1 = emit (Run cmd) w
      in case run_result env cmd of
           Inl e \<Rightarrow> (Inl e, w1)
         | Inr result \<Rightarrow> (Inr result, w1\<lparr>store := run_effect env cmd (store w1)\<rparr>))"

section \<open>Table reset\<close>

text \<open>Lines 43 to 66, \<open>drop_all_tables\<close>.\<close>

definition tables_to_drop :: "string list" where
  "tables_to_drop = [''positions'', ''accounts'', ''jobs'', ''instruments'', ''users'']"

definition drop_table_sql :: "string \<Rightarrow> string" where
  "drop_table_sql table = ''DROP TABLE IF EXISTS '' @ table @ '' CASCADE''"

definition drop_function_sql :: string where
  "drop_function_sql = ''DROP FUNCTION IF EXISTS update_updated_at_column() CASCADE''"

text \<open>One turn of the loop over \<open>tables_to_drop\<close>: the \<open>try\<close> with its \<open>except\<close>.\<close>

definition drop_table :: "env \<Rightarrow> string \<Rightarrow> world \<Rightarrow> world" where
  "drop_table env table w =
     (case db_execute env (drop_table_sql table) w of
        (Inr u, w1) \<Rightarrow> print (''   '' @ check_mark @ '' Dropped '' @ table) w1
      | (Inl e, w1) \<Rightarrow>
          print (''   '' @ warning_sign @ ''  Error dropping '' @ table @ '': '' @ str_exn e) w1)"

fun drop_tables :: "env \<Rightarrow> string list \<Rightarrow> world \<Rightarrow> world" where
  "drop_tables env [] w = w"
| "drop_tables env (table # rest) w = drop_tables env rest (drop_table env table w)"

definition drop_function :: "env \<Rightarrow> world \<Rightarrow> world" where
  "drop_function env w =
     (case db_execute env drop_function_sql w of
        (Inr u, w1) \<Rightarrow> print (''   '' @ check_mark @ '' Dropped update_updated_at_column function'') w1
      | (Inl e, w1) \<Rightarrow>
          print (''   '' @ warning_sign @ ''  Error dropping function: '' @ str_exn e) w1)"

definition drop_all_tables :: "env \<Rightarrow> world \<Rightarrow> world" where
  "drop_all_tables env w =
     drop_function env
       (drop_tables env tables_to_drop
          (print (wastebasket @ ''  Dropping existing tables...'') w))"

section \<open>The repository layer\<close>

text \<open>
  Modelled from the spec: the repository layer (\<open>src.models.Database\<close>, with
  \<open>find_by_clerk_id\<close>, \<open>create_user\<close>, \<open>find_by_user\<close>, \<open>create_account\<close>,
  \<open>find_by_account\<close>, \<open>add_position\<close>) is not among the sources. The finders return
  the matching rows in insertion order; a creation appends one row. Following the
  invariants of the data model, \<open>create_user\<close> refuses a second row for a clerk id,
  \<open>create_account\<close> refuses an owner that does not exist and \<open>add_position\<close> refuses
  an account that does not exist; a refusal is an exception.
\<close>

text \<open>Modelled from the spec: \<open>users.find_by_clerk_id\<close>, the first user row with the
  clerk id, or \<open>None\<close>.\<close>

definition find_by_clerk_id :: "string \<Rightarrow> database \<Rightarrow> user_row option" where
  "find_by_clerk_id cid db = find (\<lambda>u. user_clerk_id u = cid) (users db)"

text \<open>Modelled from the spec: \<open>users.create_user\<close>, which appends the user row; the
  clerk id is unique.\<close>

definition create_user :: "string \<Rightarrow> string \<Rightarrow> int \<Rightarrow> decimal \<Rightarrow> database \<Rightarrow> exn + database" where
  "create_user cid name years income db =
     (case find_by_clerk_id cid db of
        Some u \<Rightarrow> Inl (Exception ''user already exists'')
      | None \<Rightarrow>
          Inr (db\<lparr>users := users db @
                 [\<lparr>user_clerk_id = cid, user_display_name = name,
                   user_years_until_retirement = years,
                   user_target_retirement_income = income\<rparr>]\<rparr>))"

text \<open>Modelled from the spec: \<open>accounts.find_by_user\<close>, the account rows of the owner.\<close>

definition find_by_user :: "string \<Rightarrow> database \<Rightarrow> account_row list" where
  "find_by_user cid db = filter (\<lambda>a. acc_clerk_user_id a = cid) (accounts db)"

text \<open>Modelled from the spec: \<open>accounts.create_account\<close>, which appends the account row
  under the next id and returns that id; the owner must exist.\<close>

definition create_account ::
  "string \<Rightarrow> string \<Rightarrow> string \<Rightarrow> decimal \<Rightarrow> decimal \<Rightarrow> database \<Rightarrow> exn + nat \<times> database" where
  "create_account cid name purpose balance interest db =
     (case find_by_clerk_id cid db of
        None \<Rightarrow> Inl (Exception ''user does not exist'')
      | Some u \<Rightarrow>
          Inr (next_account_id db,
               db\<lparr>accounts := accounts db @
                    [\<lparr>acc_id = next_account_id db, acc_clerk_user_id = cid, acc_name = name,
                      acc_purpose = purpose, acc_cash_balance = balance,
                      acc_cash_interest = interest\<rparr>],
                  next_account_id := Suc (next_account_id db)\<rparr>))"

text \<open>Modelled from the spec: \<open>positions.find_by_account\<close>, the position rows of the
  account.\<close>

definition find_by_account :: "nat \<Rightarrow> database \<Rightarrow> position_row list" where
  "find_by_account aid db = filter (\<lambda>p. pos_account_id p = aid) (positions db)"

text \<open>Modelled from the spec: \<open>positions.add_position\<close>, which appends the position
  row; the account must exist.\<close>

definition add_position :: "nat \<Rightarrow> string \<Rightarrow> decimal \<Rightarrow> database \<Rightarrow> exn + database" where
  "add_position aid smb qty db =
     (case find (\<lambda>a. acc_id a = aid) (accounts db) of
        None \<Rightarrow> Inl (Exception ''account does not exist'')
      | Some a \<Rightarrow>
          Inr (db\<lparr>positions := positions db @
                 [\<lparr>pos_account_id = aid, pos_symbol = smb, pos_quantity = qty\<rparr>]\<rparr>))"

text \<open>
  Modelled from the spec: the validation layer (\<open>src.schemas\<close>) is not among the sources.
  \<open>model_dump\<close> hands back the fields of a payload that is already well typed, as all
  payloads of this script are.
\<close>

definition user_model_dump :: "UserCreate \<Rightarrow> UserCreate" where
  "user_model_dump p = p"

text \<open>Modelled from the spec: \<open>AccountCreate.model_dump\<close>, as for the user payload.\<close>

definition account_model_dump :: "AccountCreate \<Rightarrow> AccountCreate" where
  "account_model_dump p = p"

text \<open>Modelled from the spec: \<open>PositionCreate.model_dump\<close>, as for the user payload.\<close>

definition position_model_dump :: "PositionCreate \<Rightarrow> PositionCreate" where
  "position_model_dump p = p"

section \<open>Test fixture creation\<close>

text \<open>
  Lines 69 to 160, \<open>create_test_data\<close>. Its three literals come first: \<open>user_data\<close>
  (lines 73 to 78), the list \<open>accounts\<close> (lines 93 to 112) and the list \<open>positions\<close>
  (lines 134 to 140); the two lists are named \<open>fixture_accounts\<close> and
  \<open>fixture_positions\<close> here, as the tables already have the shorter names.
\<close>

definition user_data :: UserCreate where
  "user_data = \<lparr>clerk_user_id = ''test_user_001'', display_name = ''Test User'',
                 years_until_retirement = 25, target_retirement_income = Decimal 100000 0\<rparr>"

definition fixture_accounts :: "AccountCreate list" where
  "fixture_accounts =
     [\<lparr>account_name = ''401(k)'', account_purpose = ''Primary retirement savings'',
       cash_balance = Decimal 5000 0, cash_interest = Decimal 45 3\<rparr>,
      \<lparr>account_name = ''Roth IRA'', account_purpose = ''Tax-free retirement savings'',
       cash_balance = Decimal 1000 0, cash_interest = Decimal 4 2\<rparr>,
      \<lparr>account_name = ''Taxable Brokerage'', account_purpose = ''General investment account'',
       cash_balance = Decimal 2500 0, cash_interest = Decimal 35 3\<rparr>]"

definition fixture_positions :: "(string \<times> decimal) list" where
  "fixture_positions =
     [(''SPY'', Decimal 100 0), (''QQQ'', Decimal 50 0), (''BND'', Decimal 200 0),
      (''VEA'', Decimal 150 0), (''GLD'', Decimal 25 0)]"

text \<open>Lines 80 to 91: look the user up, create it when the lookup finds nothing.\<close>

definition create_test_user :: "world \<Rightarrow> (exn + unit) \<times> world" where
  "create_test_user w =
     (let w1 = emit (FindByClerkId ''test_user_001'') w
      in case find_by_clerk_id ''test_user_001'' (store w1) of
           Some existing \<Rightarrow> (Inr (), print (''   '' @ info_sign @ ''  Test user already exists'') w1)
         | None \<Rightarrow>
             (let validated = user_model_dump user_data;
                  w2 = emit (CreateUser validated) w1
              in case create_user (clerk_user_id validated) (display_name validated)
                        (years_until_retirement validated)
                        (target_retirement_income validated) (store w2) of
                   Inl e \<Rightarrow> (Inl e, w2)
                 | Inr db \<Rightarrow>
                     (Inr (), print (''   '' @ check_mark @ '' Created test user'')
                                (w2\<lparr>store := db\<rparr>))))"

text \<open>Lines 121 to 131: the loop that creates the accounts and collects their ids.\<close>

fun create_accounts :: "AccountCreate list \<Rightarrow> nat list \<Rightarrow> world \<Rightarrow> (exn + nat list) \<times> world" where
  "create_accounts [] account_ids w = (Inr account_ids, w)"
| "create_accounts (acc_data # rest) account_ids w =
     (let validated = account_model_dump acc_data;
          w1 = emit (CreateAccount ''test_user_001'' validated) w
      in case create_account ''test_user_001'' (account_name validated)
                (account_purpose validated) (cash_balance validated)
                (cash_interest validated) (store w1) of
           Inl e \<Rightarrow> (Inl e, w1)
         | Inr (new_id, db) \<Rightarrow>
             create_accounts rest (account_ids @ [new_id])
               (print (''   '' @ check_mark @ '' Created account: '' @ account_name validated)
                  (w1\<lparr>store := db\<rparr>)))"

text \<open>Lines 114 to 131: reuse the accounts of the user when there are any, otherwise
  create the three of the fixture. The result is \<open>account_ids\<close>.\<close>

definition create_test_accounts :: "world \<Rightarrow> (exn + nat list) \<times> world" where
  "create_test_accounts w =
     (let w1 = emit (FindByUser ''test_user_001'') w;
          user_accounts = find_by_user ''test_user_001'' (store w1)
      in if user_accounts \<noteq> []
         then (Inr (map acc_id user_accounts),
               print (''   '' @ info_sign @ ''  User already has ''
                      @ str_nat (length user_accounts) @ '' accounts'') w1)
         else create_accounts fixture_accounts [] w1)"

text \<open>Lines 148 to 160: the loop that adds the positions.\<close>

fun add_positions :: "nat \<Rightarrow> (string \<times> decimal) list \<Rightarrow> world \<Rightarrow> (exn + unit) \<times> world" where
  "add_positions aid [] w = (Inr (), w)"
| "add_positions aid ((smb, qty) # rest) w =
     (let validated = position_model_dump \<lparr>account_id = aid, symbol = smb, quantity = qty\<rparr>;
          w1 = emit (AddPosition (account_id validated) (symbol validated) (quantity validated)) w
      in case add_position (account_id validated) (symbol validated) (quantity validated)
                (store w1) of
           Inl e \<Rightarrow> (Inl e, w1)
         | Inr db \<Rightarrow>
             add_positions aid rest
               (print (''   '' @ check_mark @ '' Added position: '' @ str_decimal qty
                       @ '' shares of '' @ smb)
                  (w1\<lparr>store := db\<rparr>)))"

text \<open>Lines 133 to 160: under the guard \<open>if account_ids\<close>, the positions of the first
  account.\<close>

definition create_test_positions :: "nat list \<Rightarrow> world \<Rightarrow> (exn + unit) \<times> world" where
  "create_test_positions account_ids w =
     (case account_ids of
        [] \<Rightarrow> (Inr (), w)
      | aid # others \<Rightarrow>
          (let w1 = emit (FindByAccount aid) w;
               existing_positions = find_by_account aid (store w1)
           in if existing_positions \<noteq> []
              then (Inr (), print (''   '' @ info_sign @ ''  Account already has ''
                                   @ str_nat (length existing_positions) @ '' positions'') w1)
              else add_positions aid fixture_positions w1))"

definition create_test_data :: "world \<Rightarrow> (exn + unit) \<times> world" where
  "create_test_data w =
     (case create_test_user (print (newline @ bust @ '' Creating test user and portfolio...'') w) of
        (Inl e, w1) \<Rightarrow> (Inl e, w1)
      | (Inr u, w1) \<Rightarrow>
          (case create_test_accounts w1 of
             (Inl e, w2) \<Rightarrow> (Inl e, w2)
           | (Inr account_ids, w2) \<Rightarrow> create_test_positions account_ids w2))"

section \<open>The script\<close>

record args =
  with_test_data :: bool
  skip_drop :: bool

definition migration_cmd :: "string list" where
  "migration_cmd = [''uv'', ''run'', ''run_migrations.py'']"

definition seed_cmd :: "string list" where
  "seed_cmd = [''uv'', ''run'', ''seed_data.py'']"

definition tables :: "string list" where
  "tables = [''users'', ''instruments'', ''accounts'', ''positions'', ''jobs'']"

definition count_sql :: "string \<Rightarrow> string" where
  "count_sql table = ''SELECT COUNT(*) as count FROM '' @ table"

text \<open>Line 214, \<open>result[0]['count'] if result else 0\<close>: the first row is read only
  when there is one; a first row without the key raises.\<close>

definition first_count :: "row list \<Rightarrow> exn + int" where
  "first_count result =
     (case result of
        [] \<Rightarrow> Inr 0
      | r # others \<Rightarrow>
          (case map_of r ''count'' of
             None \<Rightarrow> Inl (KeyError ''count'')
           | Some c \<Rightarrow> Inr c))"

definition count_line :: "string \<Rightarrow> int \<Rightarrow> string" where
  "count_line table c = ''   '' @ bullet @ '' '' @ table @ '': '' @ str_int c @ '' records''"

text \<open>Lines 212 to 215: one turn of the verification loop, and the loop.\<close>

definition verify_table :: "env \<Rightarrow> string \<Rightarrow> world \<Rightarrow> (exn + unit) \<times> world" where
  "verify_table env table w =
     (case db_query env (count_sql table) w of
        (Inl e, w1) \<Rightarrow> (Inl e, w1)
      | (Inr result, w1) \<Rightarrow>
          (case first_count result of
             Inl e \<Rightarrow> (Inl e, w1)
           | Inr c \<Rightarrow> (Inr (), print (count_line table c) w1)))"

fun verify_tables :: "env \<Rightarrow> string list \<Rightarrow> world \<Rightarrow> (exn + unit) \<times> world" where
  "verify_tables env [] w = (Inr (), w)"
| "verify_tables env (table # rest) w =
     (case verify_table env table w of
        (Inl e, w1) \<Rightarrow> (Inl e, w1)
      | (Inr u, w1) \<Rightarrow> verify_tables env rest w1)"

text \<open>Lines 217 to 224: the closing lines.\<close>

definition closing :: "args \<Rightarrow> world \<Rightarrow> world" where
  "closing a w =
     (let w1 = print (check_mark @ '' Database reset complete!'')
                 (print (newline @ replicate 50 (CHR ''='')) w)
      in if with_test_data a
         then print (''   '' @ bullet @ '' 5 positions in 401k account'')
                (print (''   '' @ bullet @ '' 3 accounts (401k, Roth IRA, Taxable)'')
                   (print (''   '' @ bullet @ '' User ID: test_user_001'')
                      (print (newline @ memo @ '' Test user created:'') w1)))
         else w1)"

text \<open>Lines 210 to 224: the verification report and the end of the run.\<close>

definition verification :: "args \<Rightarrow> env \<Rightarrow> world \<Rightarrow> outcome \<times> world" where
  "verification a env w =
     (case verify_tables env tables (print (newline @ magnifier @ '' Final verification...'') w) of
        (Inl e, w1) \<Rightarrow> (Raised e, w1)
      | (Inr u, w1) \<Rightarrow> (Returned, closing a w1))"

text \<open>Lines 207 to 224: the optional fixture, then the report.\<close>

definition fixture_step :: "args \<Rightarrow> env \<Rightarrow> world \<Rightarrow> outcome \<times> world" where
  "fixture_step a env w =
     (if with_test_data a
      then (case create_test_data w of
              (Inl e, w1) \<Rightarrow> (Raised e, w1)
            | (Inr u, w1) \<Rightarrow> verification a env w1)
      else verification a env w)"

text \<open>Lines 193 to 224: the seed loader and everything after it.\<close>

definition seed_step :: "args \<Rightarrow> env \<Rightarrow> world \<Rightarrow> outcome \<times> world" where
  "seed_step a env w =
     (case run_cmd env seed_cmd (print (newline @ seedling @ '' Loading seed data...'') w) of
        (Inl e, w1) \<Rightarrow> (Raised e, w1)
      | (Inr result, w1) \<Rightarrow>
          if returncode result \<noteq> 0
          then (SysExit 1,
                print (or_empty (stderr result)) (print (cross_mark @ '' Seed data failed!'') w1))
          else (let out = or_empty (stdout result)
                in if contains out ''22/22 instruments loaded''
                   then fixture_step a env (print (check_mark @ '' Loaded 22 instruments'') w1)
                   else fixture_step a env (print (check_mark @ '' Seed data loaded'') w1)))"

text \<open>Lines 180 to 191: the drop and the migrations, both under \<open>if not args.skip_drop\<close>.\<close>

definition migration_step :: "args \<Rightarrow> env \<Rightarrow> world \<Rightarrow> outcome \<times> world" where
  "migration_step a env w =
     (case run_cmd env migration_cmd
             (print (newline @ memo @ '' Running migrations...'') (drop_all_tables env w)) of
        (Inl e, w1) \<Rightarrow> (Raised e, w1)
      | (Inr result, w1) \<Rightarrow>
          if returncode result \<noteq> 0
          then (SysExit 1,
                print (or_empty (stderr result)) (print (cross_mark @ '' Migration failed!'') w1))
          else seed_step a env (print (check_mark @ '' Migrations completed'') w1))"

text \<open>Lines 174 and 175: the two opening lines.\<close>

definition banner :: "world \<Rightarrow> world" where
  "banner w = print (replicate 50 (CHR ''='')) (print (rocket @ '' Database Reset Script'') w)"

text \<open>
  Lines 166 to 224: \<open>main\<close>, from the flags as \<open>parse_args\<close> returns them, the
  collaborators and the tables as the run finds them. The trace starts empty.
\<close>

definition main :: "args \<Rightarrow> env \<Rightarrow> database \<Rightarrow> outcome \<times> world" where
  "main a env db =
     (let w = banner \<lparr>trace = [], store = db\<rparr>
      in if \<not> skip_drop a then migration_step a env w else seed_step a env w)"

section \<open>Observing a trace\<close>

text \<open>
  What a trace shows of each collaborator, in the order of the calls: the statements
  executed, the queries, the commands run, the calls to the repository layer.
\<close>

fun execute_of :: "event \<Rightarrow> string list" where
  "execute_of (Execute s) = [s]"
| "execute_of e = []"

definition executed :: "event list \<Rightarrow> string list" where
  "executed es = concat (map execute_of es)"

fun query_of :: "event \<Rightarrow> string list" where
  "query_of (Query s) = [s]"
| "query_of e = []"

definition queried :: "event list \<Rightarrow> string list" where
  "queried es = concat (map query_of es)"

fun run_of :: "event \<Rightarrow> string list list" where
  "run_of (Run c) = [c]"
| "run_of e = []"

definition run_cmds :: "event list \<Rightarrow> string list list" where
  "run_cmds es = concat (map run_of es)"

fun is_repo_call :: "event \<Rightarrow> bool" where
  "is_repo_call (Print s) = False"
| "is_repo_call (Execute s) = False"
| "is_repo_call (Query s) = False"
| "is_repo_call (Run c) = False"
| "is_repo_call e = True"

definition repo_calls :: "event list \<Rightarrow> event list" where
  "repo_calls es = filter is_repo_call es"

section \<open>Auxiliary notions\<close>

text \<open>The world after the first and after the second part of \<open>create_test_data\<close>.\<close>

definition after_user :: "world \<Rightarrow> world" where
  "after_user w =
     snd (create_test_user (print (newline @ bust @ '' Creating test user and portfolio...'') w))"

definition after_accounts :: "world \<Rightarrow> world" where
  "after_accounts w = snd (create_test_accounts (after_user w))"

text \<open>A store is settled when the three lookups of the fixture all find something.\<close>

definition settled :: "database \<Rightarrow> bool" where
  "settled db =
     (find_by_clerk_id ''test_user_001'' db \<noteq> None
      \<and> (case find_by_user ''test_user_001'' db of
            [] \<Rightarrow> False
          | a # rest \<Rightarrow> find_by_account (acc_id a) db \<noteq> []))"

text \<open>The line a drop leaves behind: the confirmation, or the error that was caught.\<close>

definition drop_report :: "env \<Rightarrow> string \<Rightarrow> string" where
  "drop_report env table =
     (case execute_raises env (drop_table_sql table) of
        None \<Rightarrow> ''   '' @ check_mark @ '' Dropped '' @ table
      | Some e \<Rightarrow> ''   '' @ warning_sign @ ''  Error dropping '' @ table @ '': '' @ str_exn e)"

definition function_report :: "env \<Rightarrow> string" where
  "function_report env =
     (case execute_raises env drop_function_sql of
        None \<Rightarrow> ''   '' @ check_mark @ '' Dropped update_updated_at_column function''
      | Some e \<Rightarrow> ''   '' @ warning_sign @ ''  Error dropping function: '' @ str_exn e)"

text \<open>The events of each part of \<open>create_test_data\<close>, from the tables the part finds.\<close>

definition user_events :: "database \<Rightarrow> event list" where
  "user_events db =
     [Print (newline @ bust @ '' Creating test user and portfolio...''),
      FindByClerkId ''test_user_001'']
     @ (if find_by_clerk_id ''test_user_001'' db = None
        then [CreateUser user_data, Print (''   '' @ check_mark @ '' Created test user'')]
        else [Print (''   '' @ info_sign @ ''  Test user already exists'')])"

definition account_events :: "database \<Rightarrow> event list" where
  "account_events db =
     [FindByUser ''test_user_001'']
     @ (if find_by_user ''test_user_001'' db = []
        then concat (map (\<lambda>p. [CreateAccount ''test_user_001'' p,
                                Print (''   '' @ check_mark @ '' Created account: '' @ account_name p)])
                       fixture_accounts)
        else [Print (''   '' @ info_sign @ ''  User already has ''
                     @ str_nat (length (find_by_user ''test_user_001'' db)) @ '' accounts'')])"

definition position_events :: "database \<Rightarrow> event list" where
  "position_events db =
     (case find_by_user ''test_user_001'' db of
        [] \<Rightarrow> []
      | a # rest \<Rightarrow>
          [FindByAccount (acc_id a)]
          @ (if find_by_account (acc_id a) db = []
             then concat (map (\<lambda>(s, q). [AddPosition (acc_id a) s q,
                                           Print (''   '' @ check_mark @ '' Added position: ''
                                                  @ str_decimal q @ '' shares of '' @ s)])
                            fixture_positions)
             else [Print (''   '' @ info_sign @ ''  Account already has ''
                          @ str_nat (length (find_by_account (acc_id a) db)) @ '' positions'')]))"

text \<open>The user row of the fixture.\<close>

definition test_user_row :: user_row where
  "test_user_row =
     \<lparr>user_clerk_id = ''test_user_001'', user_display_name = ''Test User'',
      user_years_until_retirement = 25, user_target_retirement_income = Decimal 100000 0\<rparr>"

text \<open>The rows the fixture creates: the three accounts from a first id on, the five
  positions of an account.\<close>

definition new_accounts :: "nat \<Rightarrow> account_row list" where
  "new_accounts n =
     [\<lparr>acc_id = n, acc_clerk_user_id = ''test_user_001'',
       acc_name = ''401(k)'', acc_purpose = ''Primary retirement savings'',
       acc_cash_balance = Decimal 5000 0, acc_cash_interest = Decimal 45 3\<rparr>,
      \<lparr>acc_id = Suc n, acc_clerk_user_id = ''test_user_001'',
       acc_name = ''Roth IRA'', acc_purpose = ''Tax-free retirement savings'',
       acc_cash_balance = Decimal 1000 0, acc_cash_interest = Decimal 4 2\<rparr>,
      \<lparr>acc_id = Suc (Suc n), acc_clerk_user_id = ''test_user_001'',
       acc_name = ''Taxable Brokerage'', acc_purpose = ''General investment account'',
       acc_cash_balance = Decimal 2500 0, acc_cash_interest = Decimal 35 3\<rparr>]"

definition new_positions :: "nat \<Rightarrow> position_row list" where
  "new_positions aid =
     [\<lparr>pos_account_id = aid, pos_symbol = ''SPY'', pos_quantity = Decimal 100 0\<rparr>,
      \<lparr>pos_account_id = aid, pos_symbol = ''QQQ'', pos_quantity = Decimal 50 0\<rparr>,
      \<lparr>pos_account_id = aid, pos_symbol = ''BND'', pos_quantity = Decimal 200 0\<rparr>,
      \<lparr>pos_account_id = aid, pos_symbol = ''VEA'', pos_quantity = Decimal 150 0\<rparr>,
      \<lparr>pos_account_id = aid, pos_symbol = ''GLD'', pos_quantity = Decimal 25 0\<rparr>]"

text \<open>The account whose positions are looked at: the first the user has, or the first
  of the new ones.\<close>

definition first_account_id :: "database \<Rightarrow> nat" where
  "first_account_id db =
     (case find_by_user ''test_user_001'' db of
        [] \<Rightarrow> next_account_id db
      | a # rest \<Rightarrow> acc_id a)"

text \<open>What the count query of a table gives the report: an exception, or the count.\<close>

definition count_of :: "env \<Rightarrow> string \<Rightarrow> exn + int" where
  "count_of env table =
     (case query_result env (count_sql table) of
        Inl e \<Rightarrow> Inl e
      | Inr result \<Rightarrow> first_count result)"

text \<open>The line that sums the seed run up, and the worlds in which the later steps begin.\<close>

definition seed_summary :: "CompletedProcess \<Rightarrow> string" where
  "seed_summary result =
     (if contains (or_empty (stdout result)) ''22/22 instruments loaded''
      then check_mark @ '' Loaded 22 instruments''
      else check_mark @ '' Seed data loaded'')"

definition after_seed :: "env \<Rightarrow> world \<Rightarrow> world" where
  "after_seed env w =
     print (case run_result env seed_cmd of Inl e \<Rightarrow> [] | Inr result \<Rightarrow> seed_summary result)
       (snd (run_cmd env seed_cmd (print (newline @ seedling @ '' Loading seed data...'') w)))"

definition after_migration :: "env \<Rightarrow> world \<Rightarrow> world" where
  "after_migration env w =
     print (check_mark @ '' Migrations completed'')
       (snd (run_cmd env migration_cmd
               (print (newline @ memo @ '' Running migrations...'') (drop_all_tables env w))))"

definition before_seed :: "args \<Rightarrow> env \<Rightarrow> database \<Rightarrow> world" where
  "before_seed a env db =
     (if skip_drop a then banner \<lparr>trace = [], store = db\<rparr>
      else after_migration env (banner \<lparr>trace = [], store = db\<rparr>))"

definition before_report :: "args \<Rightarrow> env \<Rightarrow> database \<Rightarrow> world" where
  "before_report a env db =
     (if with_test_data a then snd (create_test_data (after_seed env (before_seed a env db)))
      else after_seed env (before_seed a env db))"

section \<open>Example inputs\<close>

text \<open>Example tables: nothing at all; the test user alone; the user with the three
  accounts, without and with a position.\<close>

definition empty_db :: database where
  "empty_db = \<lparr>users = [], accounts = [], positions = [], next_account_id = 1\<rparr>"

definition user_only_db :: database where
  "user_only_db = \<lparr>users = [test_user_row], accounts = [], positions = [], next_account_id = 1\<rparr>"

definition seeded_db :: database where
  "seeded_db = \<lparr>users = [test_user_row], accounts = new_accounts 1, positions = [],
                 next_account_id = 4\<rparr>"

definition full_db :: database where
  "full_db = \<lparr>users = [test_user_row], accounts = new_accounts 1,
               positions = [\<lparr>pos_account_id = 1, pos_symbol = ''SPY'', pos_quantity = Decimal 100 0\<rparr>],
               next_account_id = 4\<rparr>"

text \<open>Example collaborators: one for which everything succeeds and every table is
  empty, and variations with a failing migration, a failing seed loader, a client that
  refuses every statement, a client that answers every query with no row, a seed loader
  whose output lacks the marker, a client that counts 22 instruments, and a client whose
  queries raise.\<close>

definition ok_process :: CompletedProcess where
  "ok_process = \<lparr>returncode = 0, stdout = Some ''22/22 instruments loaded'', stderr = Some ''''\<rparr>"

definition failed_process :: CompletedProcess where
  "failed_process = \<lparr>returncode = 2, stdout = Some '''', stderr = Some ''boom''\<rparr>"

definition quiet_env :: env where
  "quiet_env =
     \<lparr>execute_raises = (\<lambda>sql. None),
      execute_effect = (\<lambda>sql db. db),
      query_result = (\<lambda>sql. Inr [[(''count'', 0)]]),
      run_result = (\<lambda>cmd. Inr ok_process),
      run_effect = (\<lambda>cmd db. db)\<rparr>"

definition failing_migration_env :: env where
  "failing_migration_env =
     quiet_env\<lparr>run_result :=
        (\<lambda>cmd. if cmd = migration_cmd then Inr failed_process else Inr ok_process)\<rparr>"


definition refusing_env :: env where
  "refusing_env = quiet_env\<lparr>execute_raises := (\<lambda>sql. Some (Exception ''no such table''))\<rparr>"

definition no_rows_env :: env where
  "no_rows_env = quiet_env\<lparr>query_result := (\<lambda>sql. Inr [])\<rparr>"

definition unmarked_process :: CompletedProcess where
  "unmarked_process = \<lparr>returncode = 0, stdout = Some ''done'', stderr = None\<rparr>"

definition unmarked_env :: env where
  "unmarked_env = quiet_env\<lparr>run_result := (\<lambda>cmd. Inr unmarked_process)\<rparr>"

definition counting_env :: env where
  "counting_env =
     quiet_env\<lparr>query_result :=
        (\<lambda>sql. if sql = count_sql ''instruments'' then Inr [[(''count'', 22)]]
               else Inr [[(''count'', 0)]])\<rparr>"


definition skip_args :: args where
  "skip_args = \<lparr>with_test_data = False, skip_drop = True\<rparr>"

definition plain_args :: args where
  "plain_args = \<lparr>with_test_data = False, skip_drop = False\<rparr>"

section \<open>Facts about the model\<close>

lemma trace_emit [simp]: "trace (emit e w) = trace w @ [e]"
  by (simp add: emit_def)

lemma store_emit [simp]: "store (emit e w) = store w"
  by (simp add: emit_def)

lemma trace_print [simp]: "trace (print s w) = trace w @ [Print s]"
  by (simp add: print_def)

lemma store_print [simp]: "store (print s w) = store w"
  by (simp add: print_def)

subsection \<open>The user\<close>

lemma create_test_user_found:
  assumes "find_by_clerk_id ''test_user_001'' (store w) = Some u"
  shows "create_test_user w =
           (Inr (), print (''   '' @ info_sign @ ''  Test user already exists'')
                      (emit (FindByClerkId ''test_user_001'') w))"
  using assms by (simp add: create_test_user_def Let_def)

lemma create_test_user_absent:
  assumes "find_by_clerk_id ''test_user_001'' (store w) = None"
  shows "create_test_user w =
           (Inr (), print (''   '' @ check_mark @ '' Created test user'')
                      ((emit (CreateUser user_data) (emit (FindByClerkId ''test_user_001'') w))
                         \<lparr>store := (store w)\<lparr>users := users (store w) @
                             [\<lparr>user_clerk_id = ''test_user_001'', user_display_name = ''Test User'',
                               user_years_until_retirement = 25,
                               user_target_retirement_income = Decimal 100000 0\<rparr>]\<rparr>\<rparr>))"
  using assms
  by (simp add: create_test_user_def Let_def user_model_dump_def create_user_def user_data_def)

lemma find_append:
  "find P (xs @ ys) = (case find P xs of None \<Rightarrow> find P ys | Some x \<Rightarrow> Some x)"
  by (induction xs) simp_all

subsection \<open>The accounts\<close>

lemma create_test_accounts_existing:
  assumes "find_by_user ''test_user_001'' (store w) \<noteq> []"
  shows "create_test_accounts w =
           (Inr (map acc_id (find_by_user ''test_user_001'' (store w))),
            print (''   '' @ info_sign @ ''  User already has ''
                   @ str_nat (length (find_by_user ''test_user_001'' (store w))) @ '' accounts'')
              (emit (FindByUser ''test_user_001'') w))"
  using assms by (simp add: create_test_accounts_def Let_def)

lemma create_test_accounts_fresh:
  assumes "find_by_clerk_id ''test_user_001'' (store w) = Some u"
    and "find_by_user ''test_user_001'' (store w) = []"
  shows "fst (create_test_accounts w) =
           Inr [next_account_id (store w), Suc (next_account_id (store w)),
                Suc (Suc (next_account_id (store w)))]"
    and "store (snd (create_test_accounts w)) =
           (store w)\<lparr>accounts := accounts (store w) @
              [\<lparr>acc_id = next_account_id (store w), acc_clerk_user_id = ''test_user_001'',
                acc_name = ''401(k)'', acc_purpose = ''Primary retirement savings'',
                acc_cash_balance = Decimal 5000 0, acc_cash_interest = Decimal 45 3\<rparr>,
               \<lparr>acc_id = Suc (next_account_id (store w)), acc_clerk_user_id = ''test_user_001'',
                acc_name = ''Roth IRA'', acc_purpose = ''Tax-free retirement savings'',
                acc_cash_balance = Decimal 1000 0, acc_cash_interest = Decimal 4 2\<rparr>,
               \<lparr>acc_id = Suc (Suc (next_account_id (store w))), acc_clerk_user_id = ''test_user_001'',
                acc_name = ''Taxable Brokerage'', acc_purpose = ''General investment account'',
                acc_cash_balance = Decimal 2500 0, acc_cash_interest = Decimal 35 3\<rparr>],
              next_account_id := Suc (Suc (Suc (next_account_id (store w))))\<rparr>"
  using assms
  by (simp_all add: create_test_accounts_def Let_def fixture_accounts_def account_model_dump_def
        create_account_def find_by_clerk_id_def)

subsection \<open>The positions\<close>

lemma add_positions_ok:
  assumes "find (\<lambda>a. acc_id a = aid) (accounts (store w)) = Some a"
  shows "fst (add_positions aid ps w) = Inr ()"
    and "store (snd (add_positions aid ps w)) =
           (store w)\<lparr>positions := positions (store w) @
              map (\<lambda>(s, q). \<lparr>pos_account_id = aid, pos_symbol = s, pos_quantity = q\<rparr>) ps\<rparr>"
  using assms
  by (induction aid ps w rule: add_positions.induct)
     (simp_all add: Let_def position_model_dump_def add_position_def)

lemma create_test_positions_existing:
  assumes "find_by_account aid (store w) \<noteq> []"
  shows "create_test_positions (aid # others) w =
           (Inr (), print (''   '' @ info_sign @ ''  Account already has ''
                           @ str_nat (length (find_by_account aid (store w))) @ '' positions'')
                      (emit (FindByAccount aid) w))"
  using assms by (simp add: create_test_positions_def Let_def)

lemma create_test_positions_fresh:
  assumes "find_by_account aid (store w) = []"
    and "find (\<lambda>a. acc_id a = aid) (accounts (store w)) = Some a"
  shows "fst (create_test_positions (aid # others) w) = Inr ()"
    and "store (snd (create_test_positions (aid # others) w)) =
           (store w)\<lparr>positions := positions (store w) @
              [\<lparr>pos_account_id = aid, pos_symbol = ''SPY'', pos_quantity = Decimal 100 0\<rparr>,
               \<lparr>pos_account_id = aid, pos_symbol = ''QQQ'', pos_quantity = Decimal 50 0\<rparr>,
               \<lparr>pos_account_id = aid, pos_symbol = ''BND'', pos_quantity = Decimal 200 0\<rparr>,
               \<lparr>pos_account_id = aid, pos_symbol = ''VEA'', pos_quantity = Decimal 150 0\<rparr>,
               \<lparr>pos_account_id = aid, pos_symbol = ''GLD'', pos_quantity = Decimal 25 0\<rparr>]\<rparr>"
  using assms add_positions_ok [of aid "emit (FindByAccount aid) w" a fixture_positions]
  by (simp_all add: create_test_positions_def Let_def fixture_positions_def)

subsection \<open>What each part leaves behind\<close>

lemma fst_create_test_user: "fst (create_test_user w) = Inr ()"
  by (cases "find_by_clerk_id ''test_user_001'' (store w)")
     (simp_all add: create_test_user_absent create_test_user_found)

lemma store_create_test_user_found:
  "find_by_clerk_id ''test_user_001'' (store w) \<noteq> None \<Longrightarrow>
     store (snd (create_test_user w)) = store w"
  by (auto simp add: create_test_user_found)

lemma store_create_test_user_absent:
  "find_by_clerk_id ''test_user_001'' (store w) = None \<Longrightarrow>
     store (snd (create_test_user w)) =
       (store w)\<lparr>users := users (store w) @
          [\<lparr>user_clerk_id = ''test_user_001'', user_display_name = ''Test User'',
            user_years_until_retirement = 25,
            user_target_retirement_income = Decimal 100000 0\<rparr>]\<rparr>"
  by (simp add: create_test_user_absent)

lemma user_exists_after:
  "find_by_clerk_id ''test_user_001'' (store (snd (create_test_user w))) \<noteq> None"
proof (cases "find_by_clerk_id ''test_user_001'' (store w)")
  case None
  then show ?thesis
    by (simp add: store_create_test_user_absent) (simp add: find_by_clerk_id_def find_append)
next
  case (Some u)
  then show ?thesis
    by (simp add: store_create_test_user_found)
qed

lemma store_create_test_accounts_existing:
  "find_by_user ''test_user_001'' (store w) \<noteq> [] \<Longrightarrow>
     store (snd (create_test_accounts w)) = store w"
  by (simp add: create_test_accounts_existing)

lemma fst_create_test_accounts:
  assumes "find_by_clerk_id ''test_user_001'' (store w) \<noteq> None"
  shows "fst (create_test_accounts w) =
           Inr (map acc_id (find_by_user ''test_user_001'' (store (snd (create_test_accounts w)))))"
proof (cases "find_by_user ''test_user_001'' (store w) = []")
  case True
  from assms obtain u where u: "find_by_clerk_id ''test_user_001'' (store w) = Some u"
    by auto
  show ?thesis
    using True by (simp add: create_test_accounts_fresh [OF u True]) (simp add: find_by_user_def)
next
  case False
  then show ?thesis
    by (simp add: create_test_accounts_existing)
qed

lemma accounts_exist_after:
  assumes "find_by_clerk_id ''test_user_001'' (store w) \<noteq> None"
  shows "find_by_user ''test_user_001'' (store (snd (create_test_accounts w))) \<noteq> []"
proof (cases "find_by_user ''test_user_001'' (store w) = []")
  case True
  from assms obtain u where u: "find_by_clerk_id ''test_user_001'' (store w) = Some u"
    by auto
  show ?thesis
    by (simp add: create_test_accounts_fresh [OF u True]) (simp add: find_by_user_def)
next
  case False
  then show ?thesis
    by (simp add: create_test_accounts_existing)
qed

lemma first_account_exists:
  assumes "find_by_user c db = a # rest"
  shows "find (\<lambda>x. acc_id x = acc_id a) (accounts db) \<noteq> None"
proof -
  have "a \<in> set (filter (\<lambda>x. acc_clerk_user_id x = c) (accounts db))"
    using assms by (simp add: find_by_user_def)
  then have "a \<in> set (accounts db)"
    by simp
  then show ?thesis
    by (auto simp add: find_None_iff)
qed

lemma fst_create_test_positions:
  assumes "find_by_user c (store w) = a # rest"
  shows "fst (create_test_positions (acc_id a # others) w) = Inr ()"
proof (cases "find_by_account (acc_id a) (store w) = []")
  case True
  from first_account_exists [OF assms]
  obtain b where b: "find (\<lambda>x. acc_id x = acc_id a) (accounts (store w)) = Some b"
    by auto
  show ?thesis
    by (rule create_test_positions_fresh(1) [OF True b])
next
  case False
  then show ?thesis
    by (simp add: create_test_positions_existing)
qed

lemma store_create_test_positions_existing:
  "find_by_account aid (store w) \<noteq> [] \<Longrightarrow>
     store (snd (create_test_positions (aid # others) w)) = store w"
  by (simp add: create_test_positions_existing)

lemma positions_exist_after:
  assumes "find_by_user c (store w) = a # rest"
  shows "find_by_account (acc_id a) (store (snd (create_test_positions (acc_id a # others) w))) \<noteq> []"
proof (cases "find_by_account (acc_id a) (store w) = []")
  case True
  from first_account_exists [OF assms]
  obtain b where b: "find (\<lambda>x. acc_id x = acc_id a) (accounts (store w)) = Some b"
    by auto
  show ?thesis
    by (simp add: create_test_positions_fresh(2) [OF True b]) (simp add: find_by_account_def)
next
  case False
  then show ?thesis
    by (simp add: create_test_positions_existing)
qed

subsection \<open>The whole fixture\<close>

lemma user_exists_after_user:
  "find_by_clerk_id ''test_user_001'' (store (after_user w)) \<noteq> None"
  by (simp add: after_user_def user_exists_after)

lemma accounts_exist_after_accounts:
  "find_by_user ''test_user_001'' (store (after_accounts w)) \<noteq> []"
  by (simp add: after_accounts_def accounts_exist_after user_exists_after_user)

lemma create_test_data_eq:
  "create_test_data w =
     create_test_positions
       (map acc_id (find_by_user ''test_user_001'' (store (after_accounts w))))
       (after_accounts w)"
proof -
  let ?w0 = "print (newline @ bust @ '' Creating test user and portfolio...'') w"
  obtain r1 w1 where p1: "create_test_user ?w0 = (r1, w1)"
    by (cases "create_test_user ?w0")
  have r1: "r1 = Inr ()"
    using fst_create_test_user [of ?w0] p1 by simp
  have w1: "w1 = after_user w"
    using p1 by (simp add: after_user_def)
  obtain r2 w2 where p2: "create_test_accounts w1 = (r2, w2)"
    by (cases "create_test_accounts w1")
  have w2: "w2 = after_accounts w"
    using p2 w1 by (simp add: after_accounts_def)
  have r2: "r2 = Inr (map acc_id (find_by_user ''test_user_001'' (store w2)))"
    using fst_create_test_accounts [of w1] p2 w1 user_exists_after_user [of w] by simp
  show ?thesis
    using p1 r1 p2 r2 w2 by (simp add: create_test_data_def)
qed

lemma create_test_data_ok: "fst (create_test_data w) = Inr ()"
proof -
  obtain a rest where ar: "find_by_user ''test_user_001'' (store (after_accounts w)) = a # rest"
    using accounts_exist_after_accounts [of w]
    by (cases "find_by_user ''test_user_001'' (store (after_accounts w))") auto
  show ?thesis
    using fst_create_test_positions [OF ar, of "map acc_id rest"]
    by (simp add: create_test_data_eq ar)
qed

lemma users_create_test_accounts:
  assumes "find_by_clerk_id ''test_user_001'' (store w) \<noteq> None"
  shows "users (store (snd (create_test_accounts w))) = users (store w)"
proof (cases "find_by_user ''test_user_001'' (store w) = []")
  case True
  from assms obtain u where u: "find_by_clerk_id ''test_user_001'' (store w) = Some u"
    by auto
  show ?thesis
    by (simp add: create_test_accounts_fresh(2) [OF u True])
next
  case False
  then show ?thesis
    by (simp add: store_create_test_accounts_existing)
qed

lemma positions_create_test_accounts:
  assumes "find_by_clerk_id ''test_user_001'' (store w) \<noteq> None"
  shows "positions (store (snd (create_test_accounts w))) = positions (store w)"
proof (cases "find_by_user ''test_user_001'' (store w) = []")
  case True
  from assms obtain u where u: "find_by_clerk_id ''test_user_001'' (store w) = Some u"
    by auto
  show ?thesis
    by (simp add: create_test_accounts_fresh(2) [OF u True])
next
  case False
  then show ?thesis
    by (simp add: store_create_test_accounts_existing)
qed

lemma tables_create_test_positions:
  assumes "find_by_user c (store w) = a # rest"
  shows "users (store (snd (create_test_positions (acc_id a # others) w))) = users (store w)"
    and "accounts (store (snd (create_test_positions (acc_id a # others) w))) = accounts (store w)"
    and "next_account_id (store (snd (create_test_positions (acc_id a # others) w)))
           = next_account_id (store w)"
proof -
  from first_account_exists [OF assms]
  obtain b where b: "find (\<lambda>x. acc_id x = acc_id a) (accounts (store w)) = Some b"
    by auto
  have "users (store (snd (create_test_positions (acc_id a # others) w))) = users (store w)
      \<and> accounts (store (snd (create_test_positions (acc_id a # others) w))) = accounts (store w)
      \<and> next_account_id (store (snd (create_test_positions (acc_id a # others) w)))
           = next_account_id (store w)"
  proof (cases "find_by_account (acc_id a) (store w) = []")
    case True
    show ?thesis
      by (simp add: create_test_positions_fresh(2) [OF True b])
  next
    case False
    then show ?thesis
      by (simp add: store_create_test_positions_existing)
  qed
  then show "users (store (snd (create_test_positions (acc_id a # others) w))) = users (store w)"
    and "accounts (store (snd (create_test_positions (acc_id a # others) w))) = accounts (store w)"
    and "next_account_id (store (snd (create_test_positions (acc_id a # others) w)))
           = next_account_id (store w)"
    by simp_all
qed

lemma settled_after: "settled (store (snd (create_test_data w)))"
proof -
  let ?w2 = "after_accounts w"
  obtain a rest where ar: "find_by_user ''test_user_001'' (store ?w2) = a # rest"
    using accounts_exist_after_accounts [of w]
    by (cases "find_by_user ''test_user_001'' (store ?w2)") auto
  let ?w3 = "snd (create_test_positions (acc_id a # map acc_id rest) ?w2)"
  have eq: "snd (create_test_data w) = ?w3"
    by (simp add: create_test_data_eq ar)
  have pos: "find_by_account (acc_id a) (store ?w3) \<noteq> []"
    by (rule positions_exist_after [OF ar])
  have "users (store ?w2) = users (store (after_user w))"
    unfolding after_accounts_def
    by (rule users_create_test_accounts [OF user_exists_after_user])
  then have "users (store ?w3) = users (store (after_user w))"
    by (simp add: tables_create_test_positions(1) [OF ar])
  then have usr: "find_by_clerk_id ''test_user_001'' (store ?w3) \<noteq> None"
    using user_exists_after_user [of w] by (simp add: find_by_clerk_id_def)
  have acc: "find_by_user ''test_user_001'' (store ?w3) = a # rest"
    using ar tables_create_test_positions(2) [OF ar, of "map acc_id rest"]
    by (simp add: find_by_user_def)
  show ?thesis
    unfolding eq settled_def using usr acc pos by simp
qed

lemma settled_fixed:
  assumes "settled (store w)"
  shows "store (snd (create_test_data w)) = store w"
proof -
  from assms have usr: "find_by_clerk_id ''test_user_001'' (store w) \<noteq> None"
    by (simp add: settled_def)
  from assms obtain a rest where ar: "find_by_user ''test_user_001'' (store w) = a # rest"
    and pos: "find_by_account (acc_id a) (store w) \<noteq> []"
    by (cases "find_by_user ''test_user_001'' (store w)") (auto simp add: settled_def)
  have s1: "store (after_user w) = store w"
    using usr by (simp add: after_user_def store_create_test_user_found)
  have s2: "store (after_accounts w) = store w"
    using ar s1 by (simp add: after_accounts_def store_create_test_accounts_existing)
  show ?thesis
    using ar pos s2 by (simp add: create_test_data_eq store_create_test_positions_existing)
qed

lemma create_test_data_idem:
  "store (snd (create_test_data (snd (create_test_data w)))) = store (snd (create_test_data w))"
  by (rule settled_fixed [OF settled_after])

subsection \<open>Traces of the fixture\<close>

lemma trace_after_user:
  "trace (after_user w) =
     trace w @ [Print (newline @ bust @ '' Creating test user and portfolio...''),
                FindByClerkId ''test_user_001'']
       @ (if find_by_clerk_id ''test_user_001'' (store w) = None
          then [CreateUser user_data, Print (''   '' @ check_mark @ '' Created test user'')]
          else [Print (''   '' @ info_sign @ ''  Test user already exists'')])"
  by (cases "find_by_clerk_id ''test_user_001'' (store w)")
     (simp_all add: after_user_def create_test_user_absent create_test_user_found)

lemma trace_create_test_accounts:
  assumes "find_by_clerk_id ''test_user_001'' (store w) \<noteq> None"
  shows "trace (snd (create_test_accounts w)) =
     trace w @ [FindByUser ''test_user_001'']
       @ (if find_by_user ''test_user_001'' (store w) = []
          then concat (map (\<lambda>p. [CreateAccount ''test_user_001'' p,
                                  Print (''   '' @ check_mark @ '' Created account: '' @ account_name p)])
                         fixture_accounts)
          else [Print (''   '' @ info_sign @ ''  User already has ''
                       @ str_nat (length (find_by_user ''test_user_001'' (store w)))
                       @ '' accounts'')])"
proof (cases "find_by_user ''test_user_001'' (store w) = []")
  case True
  from assms obtain u where u: "find_by_clerk_id ''test_user_001'' (store w) = Some u"
    by auto
  show ?thesis
    using True u
    by (simp add: create_test_accounts_def Let_def fixture_accounts_def account_model_dump_def
          create_account_def find_by_clerk_id_def)
next
  case False
  then show ?thesis
    by (simp add: create_test_accounts_existing)
qed

lemma trace_add_positions:
  assumes "find (\<lambda>a. acc_id a = aid) (accounts (store w)) = Some a"
  shows "trace (snd (add_positions aid ps w)) =
     trace w @ concat (map (\<lambda>(s, q). [AddPosition aid s q,
                                        Print (''   '' @ check_mark @ '' Added position: ''
                                               @ str_decimal q @ '' shares of '' @ s)]) ps)"
  using assms
  by (induction aid ps w rule: add_positions.induct)
     (simp_all add: Let_def position_model_dump_def add_position_def)

lemma trace_create_test_positions:
  assumes "find_by_user c (store w) = a # rest"
  shows "trace (snd (create_test_positions (acc_id a # others) w)) =
     trace w @ [FindByAccount (acc_id a)]
       @ (if find_by_account (acc_id a) (store w) = []
          then concat (map (\<lambda>(s, q). [AddPosition (acc_id a) s q,
                                        Print (''   '' @ check_mark @ '' Added position: ''
                                               @ str_decimal q @ '' shares of '' @ s)])
                         fixture_positions)
          else [Print (''   '' @ info_sign @ ''  Account already has ''
                       @ str_nat (length (find_by_account (acc_id a) (store w)))
                       @ '' positions'')])"
proof (cases "find_by_account (acc_id a) (store w) = []")
  case True
  from first_account_exists [OF assms]
  obtain b where b: "find (\<lambda>x. acc_id x = acc_id a) (accounts (store w)) = Some b"
    by auto
  show ?thesis
    using True trace_add_positions [of "acc_id a" "emit (FindByAccount (acc_id a)) w" b fixture_positions] b
    by (simp add: create_test_positions_def Let_def)
next
  case False
  then show ?thesis
    by (simp add: create_test_positions_existing)
qed

lemma trace_create_test_data:
  "trace (snd (create_test_data w)) =
     trace w @ user_events (store w) @ account_events (store (after_user w))
       @ position_events (store (after_accounts w))"
proof -
  obtain a rest where ar: "find_by_user ''test_user_001'' (store (after_accounts w)) = a # rest"
    using accounts_exist_after_accounts [of w]
    by (cases "find_by_user ''test_user_001'' (store (after_accounts w))") auto
  have t1: "trace (after_user w) = trace w @ user_events (store w)"
    by (simp add: trace_after_user user_events_def)
  have t2: "trace (after_accounts w) = trace (after_user w) @ account_events (store (after_user w))"
    unfolding after_accounts_def
    by (simp add: trace_create_test_accounts [OF user_exists_after_user] account_events_def)
  have t3: "trace (snd (create_test_data w)) =
              trace (after_accounts w) @ position_events (store (after_accounts w))"
    by (simp add: create_test_data_eq ar trace_create_test_positions [OF ar] position_events_def)
  show ?thesis
    by (simp add: t1 t2 t3)
qed

lemma user_events_quiet:
  "executed (user_events db) = []" "queried (user_events db) = []" "run_cmds (user_events db) = []"
  by (simp_all add: user_events_def executed_def queried_def run_cmds_def)

lemma account_events_quiet:
  "executed (account_events db) = []" "queried (account_events db) = []"
  "run_cmds (account_events db) = []"
  by (simp_all add: account_events_def executed_def queried_def run_cmds_def fixture_accounts_def)

lemma position_events_quiet:
  "executed (position_events db) = []" "queried (position_events db) = []"
  "run_cmds (position_events db) = []"
  by (cases "find_by_user ''test_user_001'' db";
      simp add: position_events_def executed_def queried_def run_cmds_def fixture_positions_def)+

lemma create_test_accounts_no_user:
  assumes "find_by_clerk_id ''test_user_001'' (store w) = None"
    and "find_by_user ''test_user_001'' (store w) = []"
  shows "fst (create_test_accounts w) = Inl (Exception ''user does not exist'')"
  using assms
  by (simp add: create_test_accounts_def Let_def fixture_accounts_def account_model_dump_def
        create_account_def)

subsection \<open>The tables after each part\<close>

lemma store_after_user_found:
  "find_by_clerk_id ''test_user_001'' (store w) \<noteq> None \<Longrightarrow> store (after_user w) = store w"
  by (simp add: after_user_def store_create_test_user_found)

lemma store_after_user_absent:
  "find_by_clerk_id ''test_user_001'' (store w) = None \<Longrightarrow>
     store (after_user w) = (store w)\<lparr>users := users (store w) @ [test_user_row]\<rparr>"
  by (simp add: after_user_def store_create_test_user_absent test_user_row_def)

lemma tables_after_user:
  "accounts (store (after_user w)) = accounts (store w)"
  "positions (store (after_user w)) = positions (store w)"
  "next_account_id (store (after_user w)) = next_account_id (store w)"
  by (cases "find_by_clerk_id ''test_user_001'' (store w)";
      simp add: store_after_user_found store_after_user_absent)+

lemma find_by_user_after_user:
  "find_by_user c (store (after_user w)) = find_by_user c (store w)"
  by (simp add: find_by_user_def tables_after_user)

lemma store_after_accounts_existing:
  "find_by_user ''test_user_001'' (store w) \<noteq> [] \<Longrightarrow>
     store (after_accounts w) = store (after_user w)"
  by (simp add: after_accounts_def store_create_test_accounts_existing find_by_user_after_user)

lemma store_after_accounts_fresh:
  assumes "find_by_user ''test_user_001'' (store w) = []"
  shows "store (after_accounts w) =
     (store (after_user w))\<lparr>accounts := accounts (store w) @ new_accounts (next_account_id (store w)),
        next_account_id := Suc (Suc (Suc (next_account_id (store w))))\<rparr>"
proof -
  obtain u where u: "find_by_clerk_id ''test_user_001'' (store (after_user w)) = Some u"
    using user_exists_after_user [of w] by auto
  have n: "find_by_user ''test_user_001'' (store (after_user w)) = []"
    using assms by (simp add: find_by_user_after_user)
  show ?thesis
    unfolding after_accounts_def
    by (simp add: create_test_accounts_fresh(2) [OF u n] tables_after_user new_accounts_def)
qed

lemma users_after_accounts:
  "users (store (after_accounts w)) = users (store (after_user w))"
  by (simp add: after_accounts_def users_create_test_accounts user_exists_after_user)

lemma positions_after_accounts:
  "positions (store (after_accounts w)) = positions (store w)"
  by (simp add: after_accounts_def positions_create_test_accounts user_exists_after_user
        tables_after_user)

lemma find_by_user_after_accounts:
  "find_by_user ''test_user_001'' (store (after_accounts w)) =
     (if find_by_user ''test_user_001'' (store w) = []
      then new_accounts (next_account_id (store w))
      else find_by_user ''test_user_001'' (store w))"
proof (cases "find_by_user ''test_user_001'' (store w) = []")
  case True
  have "filter (\<lambda>a. acc_clerk_user_id a = ''test_user_001'') (accounts (store w)) = []"
    using True by (simp add: find_by_user_def)
  then show ?thesis
    using True by (simp add: store_after_accounts_fresh find_by_user_def new_accounts_def)
next
  case False
  then show ?thesis
    by (simp add: store_after_accounts_existing find_by_user_after_user)
qed

lemma first_found_after_accounts:
  "\<exists>a rest. find_by_user ''test_user_001'' (store (after_accounts w)) = a # rest
      \<and> acc_id a = first_account_id (store w)"
  by (cases "find_by_user ''test_user_001'' (store w)")
     (simp_all add: find_by_user_after_accounts first_account_id_def new_accounts_def)

lemma find_by_account_after_accounts:
  "find_by_account aid (store (after_accounts w)) = find_by_account aid (store w)"
  by (simp add: find_by_account_def positions_after_accounts)

lemma store_create_test_data_existing:
  assumes "find_by_account (first_account_id (store w)) (store w) \<noteq> []"
  shows "store (snd (create_test_data w)) = store (after_accounts w)"
proof -
  obtain a rest where ar: "find_by_user ''test_user_001'' (store (after_accounts w)) = a # rest"
    and a: "acc_id a = first_account_id (store w)"
    using first_found_after_accounts [of w] by blast
  show ?thesis
    using assms a
    by (simp add: create_test_data_eq ar store_create_test_positions_existing
          find_by_account_after_accounts)
qed

lemma store_create_test_data_fresh:
  assumes "find_by_account (first_account_id (store w)) (store w) = []"
  shows "store (snd (create_test_data w)) =
     (store (after_accounts w))\<lparr>positions := positions (store w)
        @ new_positions (first_account_id (store w))\<rparr>"
proof -
  obtain a rest where ar: "find_by_user ''test_user_001'' (store (after_accounts w)) = a # rest"
    and a: "acc_id a = first_account_id (store w)"
    using first_found_after_accounts [of w] by blast
  from first_account_exists [OF ar]
  obtain b where b: "find (\<lambda>x. acc_id x = acc_id a) (accounts (store (after_accounts w))) = Some b"
    by auto
  have e: "find_by_account (acc_id a) (store (after_accounts w)) = []"
    using assms a by (simp add: find_by_account_after_accounts)
  note create_test_positions_fresh(2) [OF e b, of "map acc_id rest"]
  then show ?thesis
    using a
    by (simp add: create_test_data_eq ar positions_after_accounts new_positions_def)
qed

lemma users_create_test_data:
  "users (store (snd (create_test_data w))) = users (store (after_user w))"
  by (cases "find_by_account (first_account_id (store w)) (store w) = []")
     (simp_all add: store_create_test_data_fresh store_create_test_data_existing users_after_accounts)

lemma accounts_create_test_data:
  "accounts (store (snd (create_test_data w))) = accounts (store (after_accounts w))"
  by (cases "find_by_account (first_account_id (store w)) (store w) = []")
     (simp_all add: store_create_test_data_fresh store_create_test_data_existing)

lemma positions_create_test_data:
  "positions (store (snd (create_test_data w))) =
     (if find_by_account (first_account_id (store w)) (store w) = []
      then positions (store w) @ new_positions (first_account_id (store w))
      else positions (store w))"
  by (simp add: store_create_test_data_fresh store_create_test_data_existing positions_after_accounts)

lemma users_create_test_data_cases:
  "users (store (snd (create_test_data w))) =
     (if find_by_clerk_id ''test_user_001'' (store w) = None
      then users (store w) @ [test_user_row]
      else users (store w))"
  by (simp add: users_create_test_data store_after_user_absent store_after_user_found)

lemma accounts_create_test_data_cases:
  "accounts (store (snd (create_test_data w))) =
     (if find_by_user ''test_user_001'' (store w) = []
      then accounts (store w) @ new_accounts (next_account_id (store w))
      else accounts (store w))"
  by (simp add: accounts_create_test_data store_after_accounts_fresh store_after_accounts_existing
        tables_after_user)

lemma next_account_id_create_test_data:
  "next_account_id (store (snd (create_test_data w))) =
     (if find_by_user ''test_user_001'' (store w) = []
      then Suc (Suc (Suc (next_account_id (store w))))
      else next_account_id (store w))"
  by (cases "find_by_account (first_account_id (store w)) (store w) = []")
     (simp_all add: store_create_test_data_fresh store_create_test_data_existing
        store_after_accounts_fresh store_after_accounts_existing tables_after_user)

subsection \<open>Observations\<close>

lemma executed_append [simp]: "executed (xs @ ys) = executed xs @ executed ys"
  by (simp add: executed_def)

lemma queried_append [simp]: "queried (xs @ ys) = queried xs @ queried ys"
  by (simp add: queried_def)

lemma run_cmds_append [simp]: "run_cmds (xs @ ys) = run_cmds xs @ run_cmds ys"
  by (simp add: run_cmds_def)

lemma repo_calls_append [simp]: "repo_calls (xs @ ys) = repo_calls xs @ repo_calls ys"
  by (simp add: repo_calls_def)

lemma calls_append [simp]: "calls (xs @ ys) = calls xs @ calls ys"
  by (simp add: calls_def)

lemma executed_Cons [simp]: "executed (e # es) = execute_of e @ executed es"
  by (simp add: executed_def)

lemma queried_Cons [simp]: "queried (e # es) = query_of e @ queried es"
  by (simp add: queried_def)

lemma run_cmds_Cons [simp]: "run_cmds (e # es) = run_of e @ run_cmds es"
  by (simp add: run_cmds_def)

lemma repo_calls_Cons [simp]:
  "repo_calls (e # es) = (if is_repo_call e then e # repo_calls es else repo_calls es)"
  by (simp add: repo_calls_def)

lemma calls_Cons [simp]: "calls (e # es) = (if is_call e then e # calls es else calls es)"
  by (simp add: calls_def)

lemma observe_Nil [simp]:
  "executed [] = []" "queried [] = []" "run_cmds [] = []" "repo_calls [] = []" "calls [] = []"
  by (simp_all add: executed_def queried_def run_cmds_def repo_calls_def calls_def)

lemma Run_in_trace: "Run c \<in> set es \<longleftrightarrow> c \<in> set (run_cmds es)"
proof (induction es)
  case Nil
  show ?case by simp
next
  case (Cons e es)
  then show ?case by (cases e) auto
qed

lemma Execute_in_trace: "Execute s \<in> set es \<longleftrightarrow> s \<in> set (executed es)"
proof (induction es)
  case Nil
  show ?case by simp
next
  case (Cons e es)
  then show ?case by (cases e) auto
qed

lemma Query_in_trace: "Query s \<in> set es \<longleftrightarrow> s \<in> set (queried es)"
proof (induction es)
  case Nil
  show ?case by simp
next
  case (Cons e es)
  then show ?case by (cases e) auto
qed

subsection \<open>The client and the subprocess\<close>

lemma trace_run_cmd [simp]: "trace (snd (run_cmd env c w)) = trace w @ [Run c]"
  by (simp add: run_cmd_def Let_def split: sum.splits)

lemma fst_run_cmd [simp]: "fst (run_cmd env c w) = run_result env c"
  by (simp add: run_cmd_def Let_def split: sum.splits)

subsection \<open>The drops\<close>

lemma trace_drop_table:
  "trace (drop_table env t w) = trace w @ [Execute (drop_table_sql t), Print (drop_report env t)]"
  by (simp add: drop_table_def db_execute_def drop_report_def Let_def split: option.splits)

lemma trace_drop_tables:
  "trace (drop_tables env ts w) =
     trace w @ concat (map (\<lambda>t. [Execute (drop_table_sql t), Print (drop_report env t)]) ts)"
  by (induction ts arbitrary: w) (simp_all add: trace_drop_table)

lemma trace_drop_function:
  "trace (drop_function env w) = trace w @ [Execute drop_function_sql, Print (function_report env)]"
  by (simp add: drop_function_def db_execute_def function_report_def Let_def split: option.splits)

lemma trace_drop_all_tables:
  "trace (drop_all_tables env w) =
     trace w @ [Print (wastebasket @ ''  Dropping existing tables...'')]
       @ concat (map (\<lambda>t. [Execute (drop_table_sql t), Print (drop_report env t)]) tables_to_drop)
       @ [Execute drop_function_sql, Print (function_report env)]"
  by (simp add: drop_all_tables_def trace_drop_tables trace_drop_function)

lemma observe_drop_all_tables:
  "executed (trace (drop_all_tables env w)) =
     executed (trace w) @ map drop_table_sql tables_to_drop @ [drop_function_sql]"
  "queried (trace (drop_all_tables env w)) = queried (trace w)"
  "run_cmds (trace (drop_all_tables env w)) = run_cmds (trace w)"
  "repo_calls (trace (drop_all_tables env w)) = repo_calls (trace w)"
  "calls (trace (drop_all_tables env w)) =
     calls (trace w) @ map Execute (map drop_table_sql tables_to_drop @ [drop_function_sql])"
  by (simp_all add: trace_drop_all_tables tables_to_drop_def)

subsection \<open>The report\<close>

lemma verify_table_eq:
  "verify_table env t w =
     (case count_of env t of
        Inl e \<Rightarrow> (Inl e, emit (Query (count_sql t)) w)
      | Inr c \<Rightarrow> (Inr (), print (count_line t c) (emit (Query (count_sql t)) w)))"
  by (simp add: verify_table_def db_query_def count_of_def split: sum.splits)

lemma store_verify_tables: "store (snd (verify_tables env ts w)) = store w"
  by (induction ts arbitrary: w) (simp_all add: verify_table_eq split: sum.splits)

lemma verify_tables_quiet:
  "\<exists>es. trace (snd (verify_tables env ts w)) = trace w @ es
     \<and> executed es = [] \<and> run_cmds es = [] \<and> repo_calls es = []"
proof (induction ts arbitrary: w)
  case Nil
  show ?case by simp
next
  case (Cons t ts)
  show ?case
  proof (cases "count_of env t")
    case (Inl e)
    then show ?thesis
      by (simp add: verify_table_eq)
  next
    case (Inr c)
    let ?w1 = "print (count_line t c) (emit (Query (count_sql t)) w)"
    from Cons [of ?w1] obtain es where es: "trace (snd (verify_tables env ts ?w1)) = trace ?w1 @ es"
      "executed es = []" "run_cmds es = []" "repo_calls es = []"
      by blast
    have "trace (snd (verify_tables env (t # ts) w)) =
        trace w @ ([Query (count_sql t), Print (count_line t c)] @ es)"
      using Inr es(1) by (simp add: verify_table_eq)
    moreover have "executed ([Query (count_sql t), Print (count_line t c)] @ es) = []"
      "run_cmds ([Query (count_sql t), Print (count_line t c)] @ es) = []"
      "repo_calls ([Query (count_sql t), Print (count_line t c)] @ es) = []"
      using es by simp_all
    ultimately show ?thesis
      by blast
  qed
qed

lemma verify_tables_ok:
  assumes "\<forall>t\<in>set ts. \<exists>c. count_of env t = Inr c"
  shows "fst (verify_tables env ts w) = Inr ()"
    and "trace (snd (verify_tables env ts w)) =
      trace w @ concat (map (\<lambda>t. [Query (count_sql t),
                                  Print (count_line t (projr (count_of env t)))]) ts)"
  using assms
  by (induction ts arbitrary: w) (auto simp add: verify_table_eq)

lemma trace_closing:
  "\<exists>es. trace (closing a w) = trace w @ es \<and> calls es = []"
  by (simp add: closing_def Let_def)

lemma store_closing: "store (closing a w) = store w"
  by (simp add: closing_def Let_def)

lemma calls_quiet:
  assumes "calls es = []"
  shows "executed es = []" "queried es = []" "run_cmds es = []" "repo_calls es = []"
  using assms
  by (induction es; simp split: if_splits; case_tac a; simp)+

lemma store_verification: "store (snd (verification a env w)) = store w"
  by (simp add: verification_def case_prod_beta store_verify_tables store_closing split: sum.splits)

lemma verification_not_exit: "fst (verification a env w) \<noteq> SysExit n"
  by (simp add: verification_def case_prod_beta split: sum.splits)

lemma verification_quiet:
  "\<exists>es. trace (snd (verification a env w)) =
          trace w @ Print (newline @ magnifier @ '' Final verification...'') # es
     \<and> executed es = [] \<and> run_cmds es = [] \<and> repo_calls es = []"
proof -
  let ?w0 = "print (newline @ magnifier @ '' Final verification...'') w"
  obtain es where es: "trace (snd (verify_tables env tables ?w0)) = trace ?w0 @ es"
    "executed es = []" "run_cmds es = []" "repo_calls es = []"
    using verify_tables_quiet [of env tables ?w0] by blast
  show ?thesis
  proof (cases "fst (verify_tables env tables ?w0)")
    case (Inl e)
    then have "trace (snd (verification a env w)) =
        trace w @ Print (newline @ magnifier @ '' Final verification...'') # es"
      using es(1) by (simp add: verification_def case_prod_beta)
    then show ?thesis
      using es by blast
  next
    case (Inr u)
    obtain cs where cs: "trace (closing a (snd (verify_tables env tables ?w0))) =
        trace (snd (verify_tables env tables ?w0)) @ cs" "calls cs = []"
      using trace_closing by blast
    have "trace (snd (verification a env w)) =
        trace w @ Print (newline @ magnifier @ '' Final verification...'') # (es @ cs)"
      using Inr es(1) cs(1) by (simp add: verification_def case_prod_beta)
    moreover have "executed (es @ cs) = []" "run_cmds (es @ cs) = []" "repo_calls (es @ cs) = []"
      using es calls_quiet [OF cs(2)] by simp_all
    ultimately show ?thesis
      by blast
  qed
qed

lemma verification_ok:
  assumes "\<forall>t\<in>set tables. \<exists>c. count_of env t = Inr c"
  shows "fst (verification a env w) = Returned"
    and "calls (trace (snd (verification a env w))) =
      calls (trace w) @ map (\<lambda>t. Query (count_sql t)) tables"
    and "\<forall>t\<in>set tables. Print (count_line t (projr (count_of env t)))
           \<in> set (trace (snd (verification a env w)))"
proof -
  let ?w0 = "print (newline @ magnifier @ '' Final verification...'') w"
  let ?w1 = "snd (verify_tables env tables ?w0)"
  have f: "fst (verify_tables env tables ?w0) = Inr ()"
    by (rule verify_tables_ok(1) [OF assms])
  have t: "trace ?w1 = trace ?w0 @ concat (map (\<lambda>t. [Query (count_sql t),
                                  Print (count_line t (projr (count_of env t)))]) tables)"
    by (rule verify_tables_ok(2) [OF assms])
  have v: "verification a env w = (Returned, closing a ?w1)"
    using f by (simp add: verification_def case_prod_beta)
  obtain cs where cs: "trace (closing a ?w1) = trace ?w1 @ cs" "calls cs = []"
    using trace_closing by blast
  have c1: "calls (concat (map (\<lambda>t. [Query (count_sql t),
                 Print (count_line t (projr (count_of env t)))]) ts))
             = map (\<lambda>t. Query (count_sql t)) ts" for ts
    by (induction ts) simp_all
  have tr: "trace (snd (verification a env w)) =
      trace ?w0 @ concat (map (\<lambda>t. [Query (count_sql t),
                 Print (count_line t (projr (count_of env t)))]) tables) @ cs"
    using cs(1) t by (simp add: v)
  show "fst (verification a env w) = Returned"
    by (simp add: v)
  show "calls (trace (snd (verification a env w))) =
      calls (trace w) @ map (\<lambda>t. Query (count_sql t)) tables"
    by (simp add: tr c1 cs(2))
  show "\<forall>t\<in>set tables. Print (count_line t (projr (count_of env t)))
           \<in> set (trace (snd (verification a env w)))"
    by (auto simp add: tr)
qed

subsection \<open>The steps of the script\<close>

lemma fixture_step_eq:
  "fixture_step a env w =
     verification a env (if with_test_data a then snd (create_test_data w) else w)"
  using create_test_data_ok [of w]
  by (simp add: fixture_step_def case_prod_beta)

lemma or_empty_eq: "or_empty x = (case x of None \<Rightarrow> [] | Some s \<Rightarrow> s)"
  by (simp add: or_empty_def)

lemma seed_step_raised:
  assumes "run_result env seed_cmd = Inl e"
  shows "fst (seed_step a env w) = Raised e"
    and "trace (snd (seed_step a env w)) =
      trace w @ [Print (newline @ seedling @ '' Loading seed data...''), Run seed_cmd]"
  using assms by (simp_all add: seed_step_def case_prod_beta)

lemma seed_step_failed:
  assumes "run_result env seed_cmd = Inr r" and "returncode r \<noteq> 0"
  shows "fst (seed_step a env w) = SysExit 1"
    and "trace (snd (seed_step a env w)) =
      trace w @ [Print (newline @ seedling @ '' Loading seed data...''), Run seed_cmd,
                 Print (cross_mark @ '' Seed data failed!''),
                 Print (or_empty (stderr r))]"
  using assms by (simp_all add: seed_step_def case_prod_beta)

lemma seed_step_ok:
  assumes "run_result env seed_cmd = Inr r" and "returncode r = 0"
  shows "seed_step a env w = fixture_step a env (after_seed env w)"
  using assms by (simp add: seed_step_def case_prod_beta after_seed_def seed_summary_def Let_def)

lemma migration_step_raised:
  assumes "run_result env migration_cmd = Inl e"
  shows "fst (migration_step a env w) = Raised e"
    and "trace (snd (migration_step a env w)) =
      trace (drop_all_tables env w)
        @ [Print (newline @ memo @ '' Running migrations...''), Run migration_cmd]"
  using assms by (simp_all add: migration_step_def case_prod_beta)

lemma migration_step_failed:
  assumes "run_result env migration_cmd = Inr r" and "returncode r \<noteq> 0"
  shows "fst (migration_step a env w) = SysExit 1"
    and "trace (snd (migration_step a env w)) =
      trace (drop_all_tables env w)
        @ [Print (newline @ memo @ '' Running migrations...''), Run migration_cmd,
           Print (cross_mark @ '' Migration failed!''),
           Print (or_empty (stderr r))]"
  using assms by (simp_all add: migration_step_def case_prod_beta)

lemma migration_step_ok:
  assumes "run_result env migration_cmd = Inr r" and "returncode r = 0"
  shows "migration_step a env w = seed_step a env (after_migration env w)"
  using assms by (simp add: migration_step_def case_prod_beta after_migration_def)

lemma main_reaches_seed:
  assumes "skip_drop a \<or> (\<exists>m. run_result env migration_cmd = Inr m \<and> returncode m = 0)"
  shows "main a env db = seed_step a env (before_seed a env db)"
  using assms by (auto simp add: main_def before_seed_def Let_def migration_step_ok)

lemma main_reaches_report:
  assumes "skip_drop a \<or> (\<exists>m. run_result env migration_cmd = Inr m \<and> returncode m = 0)"
    and "run_result env seed_cmd = Inr s" and "returncode s = 0"
  shows "main a env db = verification a env (before_report a env db)"
  using assms(2,3)
  by (simp add: main_reaches_seed [OF assms(1)] seed_step_ok fixture_step_eq before_report_def)

lemma trace_banner:
  "trace (banner w) = trace w @ [Print (rocket @ '' Database Reset Script''),
                                  Print (replicate 50 (CHR ''=''))]"
  by (simp add: banner_def)

lemma trace_after_migration:
  "trace (after_migration env w) =
     trace (drop_all_tables env w)
       @ [Print (newline @ memo @ '' Running migrations...''), Run migration_cmd,
          Print (check_mark @ '' Migrations completed'')]"
  by (simp add: after_migration_def)

lemma trace_after_seed:
  "trace (after_seed env w) =
     trace w @ [Print (newline @ seedling @ '' Loading seed data...''), Run seed_cmd,
                Print (case run_result env seed_cmd of
                         Inl e \<Rightarrow> [] | Inr result \<Rightarrow> seed_summary result)]"
  by (simp add: after_seed_def)

lemma observe_before_seed:
  "executed (trace (before_seed a env db)) =
     (if skip_drop a then [] else map drop_table_sql tables_to_drop @ [drop_function_sql])"
  "run_cmds (trace (before_seed a env db)) = (if skip_drop a then [] else [migration_cmd])"
  "queried (trace (before_seed a env db)) = []"
  "repo_calls (trace (before_seed a env db)) = []"
  "calls (trace (before_seed a env db)) =
     (if skip_drop a then []
      else map Execute (map drop_table_sql tables_to_drop @ [drop_function_sql])
           @ [Run migration_cmd])"
  by (simp_all add: before_seed_def trace_banner trace_after_migration observe_drop_all_tables)

lemma observe_before_report:
  "executed (trace (before_report a env db)) = executed (trace (before_seed a env db))"
  "run_cmds (trace (before_report a env db)) = run_cmds (trace (before_seed a env db)) @ [seed_cmd]"
  "queried (trace (before_report a env db)) = []"
  by (simp_all add: before_report_def trace_after_seed trace_create_test_data user_events_quiet
        account_events_quiet position_events_quiet observe_before_seed)

lemma starts_with_iff: "starts_with s n \<longleftrightarrow> (\<exists>q. s = n @ q)"
  by (induction s n rule: starts_with.induct) auto

lemma contains_iff: "contains s n \<longleftrightarrow> (\<exists>p q. s = p @ n @ q)"
proof (induction s)
  case Nil
  show ?case by simp
next
  case (Cons d ds)
  show ?case
  proof
    assume "contains (d # ds) n"
    then consider "starts_with (d # ds) n" | "contains ds n"
      by auto
    then show "\<exists>p q. d # ds = p @ n @ q"
    proof cases
      case 1
      then obtain q where "d # ds = [] @ n @ q"
        by (auto simp add: starts_with_iff)
      then show ?thesis
        by blast
    next
      case 2
      then obtain p q where "ds = p @ n @ q"
        using Cons by blast
      then have "d # ds = (d # p) @ n @ q"
        by simp
      then show ?thesis
        by blast
    qed
  next
    assume "\<exists>p q. d # ds = p @ n @ q"
    then obtain p q where pq: "d # ds = p @ n @ q"
      by blast
    show "contains (d # ds) n"
    proof (cases p)
      case Nil
      then have "starts_with (d # ds) n"
        using pq by (auto simp add: starts_with_iff)
      then show ?thesis
        by simp
    next
      case (Cons x xs)
      then have "ds = xs @ n @ q"
        using pq by simp
      then have "contains ds n"
        using Cons.IH by blast
      then show ?thesis
        by simp
    qed
  qed
qed

lemma fixture_step_extends:
  "\<exists>es. trace (snd (fixture_step a env w)) = trace w @ es
     \<and> executed es = [] \<and> run_cmds es = []
     \<and> Print (newline @ magnifier @ '' Final verification...'') \<in> set es"
proof -
  let ?w1 = "if with_test_data a then snd (create_test_data w) else w"
  obtain fs where fs: "trace ?w1 = trace w @ fs" "executed fs = []" "run_cmds fs = []"
  proof (cases "with_test_data a")
    case True
    let ?fs = "user_events (store w) @ account_events (store (after_user w))
       @ position_events (store (after_accounts w))"
    have "trace ?w1 = trace w @ ?fs"
      using True by (simp add: trace_create_test_data)
    moreover have "executed ?fs = []" "run_cmds ?fs = []"
      by (simp_all add: user_events_quiet account_events_quiet position_events_quiet)
    ultimately show ?thesis
      using that by blast
  next
    case False
    then have "trace ?w1 = trace w @ []" "executed [] = []" "run_cmds [] = []"
      by simp_all
    then show ?thesis
      using that by blast
  qed
  obtain es where es: "trace (snd (verification a env ?w1)) =
      trace ?w1 @ Print (newline @ magnifier @ '' Final verification...'') # es"
    "executed es = []" "run_cmds es = []"
    using verification_quiet [of a env ?w1] by blast
  let ?all = "fs @ Print (newline @ magnifier @ '' Final verification...'') # es"
  have "trace (snd (fixture_step a env w)) = trace w @ ?all"
    using fs(1) es(1) by (simp add: fixture_step_eq)
  moreover have "executed ?all = []" "run_cmds ?all = []"
    using fs es by simp_all
  moreover have "Print (newline @ magnifier @ '' Final verification...'') \<in> set ?all"
    by simp
  ultimately show ?thesis
    by blast
qed

lemma fixture_step_not_exit: "fst (fixture_step a env w) \<noteq> SysExit n"
  by (simp add: fixture_step_def verification_not_exit case_prod_beta split: sum.splits)

lemma fixture_step_begins:
  "\<exists>es. trace (snd (fixture_step a env w)) =
          trace w
          @ Print (if with_test_data a then newline @ bust @ '' Creating test user and portfolio...''
                   else newline @ magnifier @ '' Final verification...'') # es
     \<and> run_cmds es = []"
proof (cases "with_test_data a")
  case True
  obtain es where es: "trace (snd (fixture_step a env w)) = trace w @ es" "run_cmds es = []"
    using fixture_step_extends [of a env w] by blast
  let ?w1 = "snd (create_test_data w)"
  let ?fs = "user_events (store w) @ account_events (store (after_user w))
       @ position_events (store (after_accounts w))"
  obtain vs where vs: "trace (snd (verification a env ?w1)) =
      trace ?w1 @ Print (newline @ magnifier @ '' Final verification...'') # vs"
    "run_cmds vs = []"
    using verification_quiet [of a env ?w1] by blast
  obtain us where us: "user_events (store w) =
      Print (newline @ bust @ '' Creating test user and portfolio...'') # us"
    by (simp add: user_events_def)
  let ?rest = "us @ account_events (store (after_user w))
       @ position_events (store (after_accounts w))
       @ Print (newline @ magnifier @ '' Final verification...'') # vs"
  have "trace (snd (fixture_step a env w)) =
      trace w @ Print (newline @ bust @ '' Creating test user and portfolio...'') # ?rest"
    using True vs(1) us by (simp add: fixture_step_eq trace_create_test_data)
  moreover have "run_cmds ?rest = []"
  proof -
    have "run_cmds (user_events (store w)) = []"
      by (rule user_events_quiet)
    then have "run_cmds us = []"
      by (simp add: us)
    then show ?thesis
      using vs(2) by (simp add: account_events_quiet position_events_quiet)
  qed
  ultimately show ?thesis
    using True by auto
next
  case False
  obtain vs where vs: "trace (snd (verification a env w)) =
      trace w @ Print (newline @ magnifier @ '' Final verification...'') # vs"
    "run_cmds vs = []"
    using verification_quiet [of a env w] by blast
  then show ?thesis
    using False by (auto simp add: fixture_step_eq)
qed

lemma seed_step_extends:
  "\<exists>es. trace (snd (seed_step a env w)) =
          trace w @ Print (newline @ seedling @ '' Loading seed data...'') # Run seed_cmd # es
     \<and> executed es = [] \<and> run_cmds es = []"
proof (cases "run_result env seed_cmd")
  case (Inl e)
  have "trace (snd (seed_step a env w)) =
      trace w @ Print (newline @ seedling @ '' Loading seed data...'') # Run seed_cmd # []"
    by (simp add: seed_step_raised(2) [OF Inl])
  moreover have "executed [] = []" "run_cmds [] = []"
    by simp_all
  ultimately show ?thesis
    by blast
next
  case (Inr r)
  show ?thesis
  proof (cases "returncode r = 0")
    case True
    obtain es where es: "trace (snd (fixture_step a env (after_seed env w))) =
        trace (after_seed env w) @ es" "executed es = []" "run_cmds es = []"
      using fixture_step_extends [of a env "after_seed env w"] by blast
    let ?all = "Print (seed_summary r) # es"
    have "trace (snd (seed_step a env w)) =
        trace w @ Print (newline @ seedling @ '' Loading seed data...'') # Run seed_cmd # ?all"
      using es(1) Inr by (simp add: seed_step_ok [OF Inr True] trace_after_seed)
    moreover have "executed ?all = []" "run_cmds ?all = []"
      using es by simp_all
    ultimately show ?thesis
      by blast
  next
    case False
    let ?all = "[Print (cross_mark @ '' Seed data failed!''), Print (or_empty (stderr r))]"
    have "trace (snd (seed_step a env w)) =
        trace w @ Print (newline @ seedling @ '' Loading seed data...'') # Run seed_cmd # ?all"
      by (simp add: seed_step_failed(2) [OF Inr False])
    moreover have "executed ?all = []" "run_cmds ?all = []"
      by simp_all
    ultimately show ?thesis
      by blast
  qed
qed

lemma observe_main_skip:
  assumes "skip_drop a"
  shows "executed (trace (snd (main a env db))) = []"
    and "run_cmds (trace (snd (main a env db))) = [seed_cmd]"
proof -
  obtain es where es: "trace (snd (seed_step a env (before_seed a env db))) =
      trace (before_seed a env db)
        @ Print (newline @ seedling @ '' Loading seed data...'') # Run seed_cmd # es"
    "executed es = []" "run_cmds es = []"
    using seed_step_extends [of a env "before_seed a env db"] by blast
  have m: "main a env db = seed_step a env (before_seed a env db)"
    using assms by (simp add: main_reaches_seed)
  show "executed (trace (snd (main a env db))) = []"
    using assms es by (simp add: m observe_before_seed)
  show "run_cmds (trace (snd (main a env db))) = [seed_cmd]"
    using assms es by (simp add: m observe_before_seed)
qed

lemma cmds_differ: "migration_cmd \<noteq> seed_cmd"
  by (simp add: migration_cmd_def seed_cmd_def)

lemma seed_summary_eq:
  "seed_summary r =
     (if (\<exists>p q. (case stdout r of None \<Rightarrow> [] | Some out \<Rightarrow> out)
                  = p @ ''22/22 instruments loaded'' @ q)
      then check_mark @ '' Loaded 22 instruments''
      else check_mark @ '' Seed data loaded'')"
  unfolding seed_summary_def contains_iff or_empty_eq ..

lemma first_count_Cons:
  "first_count (r # rs) =
     (case map_of r ''count'' of None \<Rightarrow> Inl (KeyError ''count'') | Some c \<Rightarrow> Inr c)"
  by (simp add: first_count_def)

lemma first_count_Nil: "first_count [] = Inr 0"
  by (simp add: first_count_def)

lemma rows_answered:
  assumes "\<forall>t\<in>set tables. \<exists>rows. query_result env (count_sql t) = Inr rows
             \<and> (rows = [] \<or> (\<exists>c. map_of (hd rows) ''count'' = Some c))"
  shows "\<forall>t\<in>set tables. \<exists>c. count_of env t = Inr c"
proof
  fix t
  assume "t \<in> set tables"
  then obtain rows where q: "query_result env (count_sql t) = Inr rows"
    and r: "rows = [] \<or> (\<exists>c. map_of (hd rows) ''count'' = Some c)"
    using assms by blast
  show "\<exists>c. count_of env t = Inr c"
  proof (cases rows)
    case Nil
    then show ?thesis
      using q by (simp add: count_of_def first_count_Nil)
  next
    case (Cons x xs)
    then obtain c where "map_of x ''count'' = Some c"
      using r by auto
    then show ?thesis
      using q Cons by (simp add: count_of_def first_count_Cons)
  qed
qed





lemma str_int_zero: "str_int 0 = ''0''"
  by code_simp

lemma count_line_zero: "count_line table 0 = ''   '' @ bullet @ '' '' @ table @ '': 0 records''"
  by (simp add: count_line_def str_int_zero)

lemma verification_extends:
  "executed (trace (snd (verification a env w))) = executed (trace w)"
  "run_cmds (trace (snd (verification a env w))) = run_cmds (trace w)"
  "repo_calls (trace (snd (verification a env w))) = repo_calls (trace w)"
proof -
  obtain es where es: "trace (snd (verification a env w)) =
          trace w @ Print (newline @ magnifier @ '' Final verification...'') # es"
    "executed es = []" "run_cmds es = []" "repo_calls es = []"
    using verification_quiet [of a env w] by blast
  show "executed (trace (snd (verification a env w))) = executed (trace w)"
    "run_cmds (trace (snd (verification a env w))) = run_cmds (trace w)"
    "repo_calls (trace (snd (verification a env w))) = repo_calls (trace w)"
    by (simp_all add: es)
qed





lemma str_int_22: "str_int 22 = ''22''"
  by code_simp

section \<open>C1: the flag \<open>--skip-drop\<close>\<close>

text \<open>
  C1 as stated fails: with \<open>--skip-drop\<close> the migration subprocess is not invoked at
  all. In a run where every collaborator succeeds, the only command run is the seed
  loader.
\<close>

theorem skip_drop_skips_migration_counterexample:
  "skip_drop skip_args
   \<and> migration_cmd \<notin> set (run_cmds (trace (snd (main skip_args quiet_env empty_db))))
   \<and> Run migration_cmd \<notin> set (trace (snd (main skip_args quiet_env empty_db)))"
proof -
  have s: "skip_drop skip_args"
    by (simp add: skip_args_def)
  have "run_cmds (trace (snd (main skip_args quiet_env empty_db))) = [seed_cmd]"
    by (rule observe_main_skip(2) [OF s])
  moreover have "migration_cmd \<noteq> seed_cmd"
    by (simp add: migration_cmd_def seed_cmd_def)
  ultimately show ?thesis
    using s by (simp add: Run_in_trace)
qed

text \<open>
  C1, amended. With \<open>--skip-drop\<close> the drop step is skipped entirely (\<open>db.execute\<close>
  is never called) and so is the migration step, which sits under the same
  \<open>if not args.skip_drop\<close>: the migration subprocess is not invoked, and the script
  goes straight to the seed step, whose subprocess is the only one the run invokes.
\<close>

theorem skip_drop_goes_to_seed:
  assumes "skip_drop a"
  shows "main a env db = seed_step a env (banner \<lparr>trace = [], store = db\<rparr>)
    \<and> executed (trace (snd (main a env db))) = []
    \<and> run_cmds (trace (snd (main a env db))) = [seed_cmd]"
  using assms observe_main_skip [OF assms, of env db]
  by (simp add: main_def)

theorem skip_drop_goes_to_seed_witness:
  "skip_drop skip_args
   \<and> executed (trace (snd (main skip_args quiet_env empty_db))) = []
   \<and> run_cmds (trace (snd (main skip_args quiet_env empty_db))) = [seed_cmd]"
proof -
  have s: "skip_drop skip_args"
    by (simp add: skip_args_def)
  from skip_drop_goes_to_seed [OF s, of quiet_env empty_db]
  have "executed (trace (snd (main skip_args quiet_env empty_db))) = []
      \<and> run_cmds (trace (snd (main skip_args quiet_env empty_db))) = [seed_cmd]"
    by blast
  with s show ?thesis
    by blast
qed

section \<open>C2: a failing migration\<close>

text \<open>
  C2. In a run without \<open>--skip-drop\<close> in which the migration subprocess returns a
  status other than 0, the script ends by \<open>sys.exit(1)\<close>, so the exit status is 1. Its
  trace is the banner and the drop step followed by the announcement, the migration
  command, the failure line and, as the last line, the stderr the subprocess left (the
  empty line when it left none), and nothing else: the migration is the only command
  run, no query is issued and the repository layer is not called, so neither the seed
  loader nor the fixture nor the verification runs.
\<close>

theorem migration_failure_is_fatal:
  assumes "\<not> skip_drop a"
    and "run_result env migration_cmd = Inr m"
    and "returncode m \<noteq> 0"
  shows "fst (main a env db) = SysExit 1
    \<and> exit_status (fst (main a env db)) = 1
    \<and> trace (snd (main a env db)) =
        trace (drop_all_tables env (banner \<lparr>trace = [], store = db\<rparr>))
          @ [Print (newline @ memo @ '' Running migrations...''), Run migration_cmd,
             Print (cross_mark @ '' Migration failed!''),
             Print (case stderr m of None \<Rightarrow> [] | Some err \<Rightarrow> err)]
    \<and> run_cmds (trace (snd (main a env db))) = [migration_cmd]
    \<and> queried (trace (snd (main a env db))) = []
    \<and> repo_calls (trace (snd (main a env db))) = []"
proof -
  let ?w = "banner \<lparr>trace = [], store = db\<rparr>"
  have m: "main a env db = migration_step a env ?w"
    using assms(1) by (simp add: main_def)
  have f: "fst (main a env db) = SysExit 1"
    by (simp add: m migration_step_failed(1) [OF assms(2,3)])
  have t: "trace (snd (main a env db)) =
        trace (drop_all_tables env ?w)
          @ [Print (newline @ memo @ '' Running migrations...''), Run migration_cmd,
             Print (cross_mark @ '' Migration failed!''),
             Print (case stderr m of None \<Rightarrow> [] | Some err \<Rightarrow> err)]"
    by (simp add: m migration_step_failed(2) [OF assms(2,3)] or_empty_eq)
  have r: "run_cmds (trace (snd (main a env db))) = [migration_cmd]"
    by (simp add: t observe_drop_all_tables trace_banner)
  have q: "queried (trace (snd (main a env db))) = []"
    by (simp add: t observe_drop_all_tables trace_banner)
  have c: "repo_calls (trace (snd (main a env db))) = []"
    by (simp add: t observe_drop_all_tables trace_banner)
  from f t r q c show ?thesis
    by simp
qed

theorem migration_failure_is_fatal_witness:
  "\<not> skip_drop plain_args
   \<and> run_result failing_migration_env migration_cmd = Inr failed_process
   \<and> returncode failed_process = 2
   \<and> stderr failed_process = Some ''boom''
   \<and> fst (main plain_args failing_migration_env empty_db) = SysExit 1
   \<and> exit_status (fst (main plain_args failing_migration_env empty_db)) = 1
   \<and> last (trace (snd (main plain_args failing_migration_env empty_db))) = Print ''boom''
   \<and> run_cmds (trace (snd (main plain_args failing_migration_env empty_db))) = [migration_cmd]"
proof -
  have h1: "\<not> skip_drop plain_args"
    by (simp add: plain_args_def)
  have h2: "run_result failing_migration_env migration_cmd = Inr failed_process"
    by (simp add: failing_migration_env_def)
  have h3: "returncode failed_process = 2" and h4: "stderr failed_process = Some ''boom''"
    by (simp_all add: failed_process_def)
  have h5: "returncode failed_process \<noteq> 0"
    using h3 by simp
  note inst = migration_failure_is_fatal [OF h1 h2 h5, of empty_db]
  from inst have f: "fst (main plain_args failing_migration_env empty_db) = SysExit 1"
    and e: "exit_status (fst (main plain_args failing_migration_env empty_db)) = 1"
    and r: "run_cmds (trace (snd (main plain_args failing_migration_env empty_db))) = [migration_cmd]"
    by blast+
  from inst have "trace (snd (main plain_args failing_migration_env empty_db)) =
        trace (drop_all_tables failing_migration_env (banner \<lparr>trace = [], store = empty_db\<rparr>))
          @ [Print (newline @ memo @ '' Running migrations...''), Run migration_cmd,
             Print (cross_mark @ '' Migration failed!''),
             Print (case stderr failed_process of None \<Rightarrow> [] | Some err \<Rightarrow> err)]"
    by blast
  then have l: "last (trace (snd (main plain_args failing_migration_env empty_db))) = Print ''boom''"
    by (simp add: h4)
  from h1 h2 h3 h4 f e l r show ?thesis
    by blast
qed

section \<open>C3: running the fixture twice\<close>

text \<open>
  C3 as stated fails in its last sentence: on tables that hold \<open>test_user_001\<close> and
  three accounts of that user but no position of the first account, the fixture reports
  the user and the accounts and then creates five position rows.
\<close>

theorem fixture_creates_rows_counterexample:
  "find_by_clerk_id ''test_user_001'' seeded_db \<noteq> None
   \<and> length (find_by_user ''test_user_001'' seeded_db) = 3
   \<and> length (positions seeded_db) = 0
   \<and> length (positions (store (snd (create_test_data \<lparr>trace = [], store = seeded_db\<rparr>)))) = 5
   \<and> store (snd (create_test_data \<lparr>trace = [], store = seeded_db\<rparr>)) \<noteq> seeded_db"
proof -
  let ?w = "\<lparr>trace = [], store = seeded_db\<rparr>"
  have u: "find_by_clerk_id ''test_user_001'' seeded_db \<noteq> None"
    by (simp add: find_by_clerk_id_def seeded_db_def test_user_row_def)
  have a: "length (find_by_user ''test_user_001'' seeded_db) = 3"
    by (simp add: find_by_user_def seeded_db_def new_accounts_def)
  have e: "positions seeded_db = []"
    by (simp add: seeded_db_def)
  have "find_by_account (first_account_id (store ?w)) (store ?w) = []"
    using e by (simp add: find_by_account_def)
  then have p: "positions (store (snd (create_test_data ?w))) =
      positions (store ?w) @ new_positions (first_account_id (store ?w))"
    by (simp add: positions_create_test_data)
  then have l: "length (positions (store (snd (create_test_data ?w)))) = 5"
    using e by (simp add: new_positions_def)
  then have "positions (store (snd (create_test_data ?w))) \<noteq> positions seeded_db"
    using e by auto
  then have "store (snd (create_test_data ?w)) \<noteq> seeded_db"
    by auto
  with u a e l show ?thesis
    by simp
qed

text \<open>
  C3, amended. \<open>create_test_data\<close> never raises, and running it a second time leaves
  the tables exactly as the first run left them, so the row counts of two runs are
  the row counts of one. The user row is appended exactly when the lookup by clerk id
  finds nothing. The three accounts are appended exactly when the user has no account;
  a user with any accounts, also fewer than three, keeps them as they are. The five
  positions are appended exactly when the first account (the first the user has, or the
  first of the new ones) has no position. On tables with \<open>test_user_001\<close> and three
  accounts of that user, the two informational lines are printed and no user row and no
  account row is created; position rows are created only under the condition above.
\<close>

theorem create_test_data_idempotent:
  "fst (create_test_data w) = Inr ()
   \<and> fst (create_test_data (snd (create_test_data w))) = Inr ()
   \<and> store (snd (create_test_data (snd (create_test_data w)))) = store (snd (create_test_data w))
   \<and> users (store (snd (create_test_data w))) =
       (if find_by_clerk_id ''test_user_001'' (store w) = None
        then users (store w) @ [test_user_row] else users (store w))
   \<and> accounts (store (snd (create_test_data w))) =
       (if find_by_user ''test_user_001'' (store w) = []
        then accounts (store w) @ new_accounts (next_account_id (store w))
        else accounts (store w))
   \<and> positions (store (snd (create_test_data w))) =
       (if find_by_account (first_account_id (store w)) (store w) = []
        then positions (store w) @ new_positions (first_account_id (store w))
        else positions (store w))
   \<and> (find_by_clerk_id ''test_user_001'' (store w) \<noteq> None
        \<and> length (find_by_user ''test_user_001'' (store w)) = 3 \<longrightarrow>
        (\<exists>es. trace (snd (create_test_data w)) = trace w @ es
           \<and> Print (''   '' @ info_sign @ ''  Test user already exists'') \<in> set es
           \<and> Print (''   '' @ info_sign @ ''  User already has 3 accounts'') \<in> set es)
        \<and> users (store (snd (create_test_data w))) = users (store w)
        \<and> accounts (store (snd (create_test_data w))) = accounts (store w))"
proof -
  have last: "(\<exists>es. trace (snd (create_test_data w)) = trace w @ es
           \<and> Print (''   '' @ info_sign @ ''  Test user already exists'') \<in> set es
           \<and> Print (''   '' @ info_sign @ ''  User already has 3 accounts'') \<in> set es)
        \<and> users (store (snd (create_test_data w))) = users (store w)
        \<and> accounts (store (snd (create_test_data w))) = accounts (store w)"
    if u: "find_by_clerk_id ''test_user_001'' (store w) \<noteq> None"
      and a: "length (find_by_user ''test_user_001'' (store w)) = 3"
  proof -
    have ne: "find_by_user ''test_user_001'' (store w) \<noteq> []"
      using a by auto
    have three: "str_nat 3 = ''3''"
      by code_simp
    have p1: "Print (''   '' @ info_sign @ ''  Test user already exists'') \<in> set (user_events (store w))"
      using u by (simp add: user_events_def)
    have "find_by_user ''test_user_001'' (store (after_user w)) = find_by_user ''test_user_001'' (store w)"
      by (rule find_by_user_after_user)
    then have p2: "Print (''   '' @ info_sign @ ''  User already has 3 accounts'')
        \<in> set (account_events (store (after_user w)))"
      using ne a three by (simp add: account_events_def)
    let ?es = "user_events (store w) @ account_events (store (after_user w))
        @ position_events (store (after_accounts w))"
    have "trace (snd (create_test_data w)) = trace w @ ?es"
      by (rule trace_create_test_data)
    moreover have "Print (''   '' @ info_sign @ ''  Test user already exists'') \<in> set ?es"
      using p1 by simp
    moreover have "Print (''   '' @ info_sign @ ''  User already has 3 accounts'') \<in> set ?es"
      using p2 by simp
    ultimately have ex: "\<exists>es. trace (snd (create_test_data w)) = trace w @ es
           \<and> Print (''   '' @ info_sign @ ''  Test user already exists'') \<in> set es
           \<and> Print (''   '' @ info_sign @ ''  User already has 3 accounts'') \<in> set es"
      by blast
    have "users (store (snd (create_test_data w))) = users (store w)"
      using u by (simp add: users_create_test_data_cases)
    moreover have "accounts (store (snd (create_test_data w))) = accounts (store w)"
      using ne by (simp add: accounts_create_test_data_cases)
    ultimately show ?thesis
      using ex by blast
  qed
  from create_test_data_ok [of w] create_test_data_ok [of "snd (create_test_data w)"]
    create_test_data_idem [of w] users_create_test_data_cases [of w]
    accounts_create_test_data_cases [of w] positions_create_test_data [of w] last
  show ?thesis
    by blast
qed

theorem create_test_data_idempotent_witness:
  "find_by_clerk_id ''test_user_001'' full_db \<noteq> None
   \<and> length (find_by_user ''test_user_001'' full_db) = 3
   \<and> users (store (snd (create_test_data \<lparr>trace = [], store = full_db\<rparr>))) = users full_db
   \<and> accounts (store (snd (create_test_data \<lparr>trace = [], store = full_db\<rparr>))) = accounts full_db"
proof -
  let ?w = "\<lparr>trace = [], store = full_db\<rparr>"
  have u: "find_by_clerk_id ''test_user_001'' (store ?w) \<noteq> None"
    by (simp add: find_by_clerk_id_def full_db_def test_user_row_def)
  have a: "length (find_by_user ''test_user_001'' (store ?w)) = 3"
    by (simp add: find_by_user_def full_db_def new_accounts_def)
  from create_test_data_idempotent [of ?w] u a
  have "users (store (snd (create_test_data ?w))) = users (store ?w)
      \<and> accounts (store (snd (create_test_data ?w))) = accounts (store ?w)"
    by blast
  with u a show ?thesis
    by simp
qed

section \<open>C4: the summary of the seed run\<close>

text \<open>
  C4. In a run that reaches the seed step (the drop was skipped or the migrations
  returned status 0) and in which the seed subprocess returns status 0, the event that
  follows the seed command in the trace is the summary line: \<open>Loaded 22 instruments\<close>
  when the stdout the subprocess left (the empty string when it left none) contains
  \<open>22/22 instruments loaded\<close> as a substring, \<open>Seed data loaded\<close> otherwise. The seed
  command occurs once. With or without the marker the run goes on in the same way: the
  line after the summary opens the next step (the fixture when it was asked for, the
  verification otherwise), and the script does not call \<open>sys.exit\<close>.
\<close>

theorem seed_summary_line:
  assumes "skip_drop a \<or> (\<exists>m. run_result env migration_cmd = Inr m \<and> returncode m = 0)"
    and "run_result env seed_cmd = Inr s"
    and "returncode s = 0"
  shows "(\<exists>before rest.
        trace (snd (main a env db)) =
          before
          @ [Run seed_cmd,
             Print (if (\<exists>p q. (case stdout s of None \<Rightarrow> [] | Some out \<Rightarrow> out)
                                = p @ ''22/22 instruments loaded'' @ q)
                    then check_mark @ '' Loaded 22 instruments''
                    else check_mark @ '' Seed data loaded''),
             Print (if with_test_data a
                    then newline @ bust @ '' Creating test user and portfolio...''
                    else newline @ magnifier @ '' Final verification...'')]
          @ rest
        \<and> Run seed_cmd \<notin> set before \<and> Run seed_cmd \<notin> set rest)
    \<and> (\<forall>n. fst (main a env db) \<noteq> SysExit n)"
proof -
  let ?w0 = "before_seed a env db"
  let ?next = "Print (if with_test_data a
                    then newline @ bust @ '' Creating test user and portfolio...''
                    else newline @ magnifier @ '' Final verification...'')"
  have m: "main a env db = fixture_step a env (after_seed env ?w0)"
    by (simp add: main_reaches_seed [OF assms(1)] seed_step_ok [OF assms(2,3)])
  obtain es where es: "trace (snd (fixture_step a env (after_seed env ?w0))) =
      trace (after_seed env ?w0) @ ?next # es" "run_cmds es = []"
    using fixture_step_begins [of a env "after_seed env ?w0"] by blast
  let ?before = "trace ?w0 @ [Print (newline @ seedling @ '' Loading seed data...'')]"
  have t: "trace (snd (main a env db)) =
      ?before @ [Run seed_cmd, Print (seed_summary s), ?next] @ es"
    using assms(2) by (simp add: m es(1) trace_after_seed)
  have b: "Run seed_cmd \<notin> set ?before"
    using cmds_differ by (simp add: Run_in_trace observe_before_seed)
  have r: "Run seed_cmd \<notin> set es"
    by (simp add: Run_in_trace es(2))
  have "\<exists>before rest.
        trace (snd (main a env db)) =
          before @ [Run seed_cmd, Print (seed_summary s), ?next] @ rest
        \<and> Run seed_cmd \<notin> set before \<and> Run seed_cmd \<notin> set rest"
    using t b r by blast
  moreover have "\<forall>n. fst (main a env db) \<noteq> SysExit n"
    by (simp add: m fixture_step_not_exit)
  ultimately show ?thesis
    unfolding seed_summary_eq by blast
qed

theorem seed_summary_line_witness:
  "run_result quiet_env migration_cmd = Inr ok_process
   \<and> run_result quiet_env seed_cmd = Inr ok_process
   \<and> returncode ok_process = 0
   \<and> stdout ok_process = Some ''22/22 instruments loaded''
   \<and> (\<exists>before rest. trace (snd (main plain_args quiet_env empty_db)) =
         before @ [Run seed_cmd, Print (check_mark @ '' Loaded 22 instruments''),
                   Print (newline @ magnifier @ '' Final verification...'')] @ rest)
   \<and> run_result unmarked_env migration_cmd = Inr unmarked_process
   \<and> run_result unmarked_env seed_cmd = Inr unmarked_process
   \<and> returncode unmarked_process = 0
   \<and> stdout unmarked_process = Some ''done''
   \<and> (\<exists>before rest. trace (snd (main plain_args unmarked_env empty_db)) =
         before @ [Run seed_cmd, Print (check_mark @ '' Seed data loaded''),
                   Print (newline @ magnifier @ '' Final verification...'')] @ rest)"
proof -
  have nt: "with_test_data plain_args = False"
    by (simp add: plain_args_def)
  have a1: "run_result quiet_env migration_cmd = Inr ok_process"
    and a2: "run_result quiet_env seed_cmd = Inr ok_process"
    by (simp_all add: quiet_env_def)
  have a3: "returncode ok_process = 0"
    and a4: "stdout ok_process = Some ''22/22 instruments loaded''"
    by (simp_all add: ok_process_def)
  have a5: "skip_drop plain_args
      \<or> (\<exists>m. run_result quiet_env migration_cmd = Inr m \<and> returncode m = 0)"
    using a1 a3 by blast
  have "''22/22 instruments loaded'' = [] @ ''22/22 instruments loaded'' @ []"
    by simp
  then have marked: "\<exists>p q. (case stdout ok_process of None \<Rightarrow> [] | Some out \<Rightarrow> out)
      = p @ ''22/22 instruments loaded'' @ q"
    unfolding a4 option.case by blast
  from seed_summary_line [OF a5 a2 a3, of empty_db]
  have w1: "\<exists>before rest. trace (snd (main plain_args quiet_env empty_db)) =
         before @ [Run seed_cmd, Print (check_mark @ '' Loaded 22 instruments''),
                   Print (newline @ magnifier @ '' Final verification...'')] @ rest"
    unfolding if_P [OF marked] nt if_False by blast
  have b1: "run_result unmarked_env migration_cmd = Inr unmarked_process"
    and b2: "run_result unmarked_env seed_cmd = Inr unmarked_process"
    by (simp_all add: unmarked_env_def)
  have b3: "returncode unmarked_process = 0"
    and b4: "stdout unmarked_process = Some ''done''"
    by (simp_all add: unmarked_process_def)
  have b5: "skip_drop plain_args
      \<or> (\<exists>m. run_result unmarked_env migration_cmd = Inr m \<and> returncode m = 0)"
    using b1 b3 by blast
  have "\<not> contains ''done'' ''22/22 instruments loaded''"
    by simp
  then have unmarked: "\<not> (\<exists>p q. (case stdout unmarked_process of None \<Rightarrow> [] | Some out \<Rightarrow> out)
      = p @ ''22/22 instruments loaded'' @ q)"
    unfolding b4 option.case contains_iff .
  from seed_summary_line [OF b5 b2 b3, of empty_db]
  have w2: "\<exists>before rest. trace (snd (main plain_args unmarked_env empty_db)) =
         before @ [Run seed_cmd, Print (check_mark @ '' Seed data loaded''),
                   Print (newline @ magnifier @ '' Final verification...'')] @ rest"
    unfolding if_not_P [OF unmarked] nt if_False by blast
  from a1 a2 a3 a4 w1 b1 b2 b3 b4 w2 show ?thesis
    by blast
qed

section \<open>C5: the drops\<close>

text \<open>
  C5. Whatever the client does with each statement, the table reset executes exactly
  the drops of positions, accounts, jobs, instruments and users, in this order, and
  then the drop of the function \<open>update_updated_at_column\<close>. A drop that raises, of a
  table or of the function, leaves its error line in the output, and the later drops
  are executed all the same. The step never ends the run: without \<open>--skip-drop\<close> the calls of the script
  always begin with the six drops followed by the migration command.
\<close>

theorem drops_never_abort:
  "executed (trace (drop_all_tables env w)) =
     executed (trace w)
     @ [''DROP TABLE IF EXISTS positions CASCADE'', ''DROP TABLE IF EXISTS accounts CASCADE'',
        ''DROP TABLE IF EXISTS jobs CASCADE'', ''DROP TABLE IF EXISTS instruments CASCADE'',
        ''DROP TABLE IF EXISTS users CASCADE'',
        ''DROP FUNCTION IF EXISTS update_updated_at_column() CASCADE'']
   \<and> (\<forall>t\<in>set tables_to_drop. \<forall>e.
         execute_raises env (drop_table_sql t) = Some e \<longrightarrow>
         Print (''   '' @ warning_sign @ ''  Error dropping '' @ t @ '': '' @ str_exn e)
           \<in> set (trace (drop_all_tables env w)))
   \<and> (\<forall>e. execute_raises env drop_function_sql = Some e \<longrightarrow>
         Print (''   '' @ warning_sign @ ''  Error dropping function: '' @ str_exn e)
           \<in> set (trace (drop_all_tables env w)))
   \<and> (\<not> skip_drop a \<longrightarrow>
        (\<exists>rest. calls (trace (snd (main a env db))) =
           [Execute ''DROP TABLE IF EXISTS positions CASCADE'',
            Execute ''DROP TABLE IF EXISTS accounts CASCADE'',
            Execute ''DROP TABLE IF EXISTS jobs CASCADE'',
            Execute ''DROP TABLE IF EXISTS instruments CASCADE'',
            Execute ''DROP TABLE IF EXISTS users CASCADE'',
            Execute ''DROP FUNCTION IF EXISTS update_updated_at_column() CASCADE'',
            Run migration_cmd] @ rest))"
proof (intro conjI)
  show "executed (trace (drop_all_tables env w)) =
     executed (trace w)
     @ [''DROP TABLE IF EXISTS positions CASCADE'', ''DROP TABLE IF EXISTS accounts CASCADE'',
        ''DROP TABLE IF EXISTS jobs CASCADE'', ''DROP TABLE IF EXISTS instruments CASCADE'',
        ''DROP TABLE IF EXISTS users CASCADE'',
        ''DROP FUNCTION IF EXISTS update_updated_at_column() CASCADE'']"
    by (simp add: observe_drop_all_tables(1) tables_to_drop_def drop_table_sql_def
          drop_function_sql_def)
next
  show "\<forall>t\<in>set tables_to_drop. \<forall>e.
         execute_raises env (drop_table_sql t) = Some e \<longrightarrow>
         Print (''   '' @ warning_sign @ ''  Error dropping '' @ t @ '': '' @ str_exn e)
           \<in> set (trace (drop_all_tables env w))"
  proof (intro ballI allI impI)
    fix t e
    assume t: "t \<in> set tables_to_drop" and e: "execute_raises env (drop_table_sql t) = Some e"
    have "drop_report env t = ''   '' @ warning_sign @ ''  Error dropping '' @ t @ '': '' @ str_exn e"
      using e by (simp add: drop_report_def)
    moreover have "Print (drop_report env t) \<in> set (trace (drop_all_tables env w))"
      using t by (auto simp add: trace_drop_all_tables)
    ultimately show "Print (''   '' @ warning_sign @ ''  Error dropping '' @ t @ '': '' @ str_exn e)
           \<in> set (trace (drop_all_tables env w))"
      by simp
  qed
next
  show "\<forall>e. execute_raises env drop_function_sql = Some e \<longrightarrow>
         Print (''   '' @ warning_sign @ ''  Error dropping function: '' @ str_exn e)
           \<in> set (trace (drop_all_tables env w))"
  proof (intro allI impI)
    fix e
    assume e: "execute_raises env drop_function_sql = Some e"
    have "function_report env = ''   '' @ warning_sign @ ''  Error dropping function: '' @ str_exn e"
      using e by (simp add: function_report_def)
    moreover have "Print (function_report env) \<in> set (trace (drop_all_tables env w))"
      by (simp add: trace_drop_all_tables)
    ultimately show "Print (''   '' @ warning_sign @ ''  Error dropping function: '' @ str_exn e)
           \<in> set (trace (drop_all_tables env w))"
      by simp
  qed
next
  let ?seven = "[Execute ''DROP TABLE IF EXISTS positions CASCADE'',
            Execute ''DROP TABLE IF EXISTS accounts CASCADE'',
            Execute ''DROP TABLE IF EXISTS jobs CASCADE'',
            Execute ''DROP TABLE IF EXISTS instruments CASCADE'',
            Execute ''DROP TABLE IF EXISTS users CASCADE'',
            Execute ''DROP FUNCTION IF EXISTS update_updated_at_column() CASCADE'',
            Run migration_cmd]"
  let ?w0 = "banner \<lparr>trace = [], store = db\<rparr>"
  have seven: "calls (trace (drop_all_tables env ?w0)) @ [Run migration_cmd] = ?seven"
    by (simp add: observe_drop_all_tables(5) trace_banner tables_to_drop_def drop_table_sql_def
          drop_function_sql_def)
  show "\<not> skip_drop a \<longrightarrow>
        (\<exists>rest. calls (trace (snd (main a env db))) = ?seven @ rest)"
  proof
    assume ns: "\<not> skip_drop a"
    show "\<exists>rest. calls (trace (snd (main a env db))) = ?seven @ rest"
    proof (cases "run_result env migration_cmd")
      case (Inl e)
      have m: "main a env db = migration_step a env ?w0"
        using ns by (simp add: main_def)
      have "calls (trace (snd (main a env db))) =
          (calls (trace (drop_all_tables env ?w0)) @ [Run migration_cmd]) @ []"
        unfolding m migration_step_raised(2) [OF Inl] calls_append by simp
      then have "calls (trace (snd (main a env db))) = ?seven @ []"
        unfolding seven .
      then show ?thesis
        by blast
    next
      case (Inr r)
      show ?thesis
      proof (cases "returncode r = 0")
        case True
        have m: "main a env db = seed_step a env (before_seed a env db)"
          using Inr True by (simp add: main_reaches_seed)
        obtain es where es: "trace (snd (seed_step a env (before_seed a env db))) =
            trace (before_seed a env db)
              @ Print (newline @ seedling @ '' Loading seed data...'') # Run seed_cmd # es"
          using seed_step_extends [of a env "before_seed a env db"] by blast
        have b: "calls (trace (before_seed a env db)) =
            calls (trace (drop_all_tables env ?w0)) @ [Run migration_cmd]"
          using ns by (simp add: before_seed_def trace_after_migration)
        have "calls (trace (snd (main a env db))) =
            (calls (trace (drop_all_tables env ?w0)) @ [Run migration_cmd])
            @ (Run seed_cmd # calls es)"
          unfolding m es calls_append b by simp
        then have "calls (trace (snd (main a env db))) = ?seven @ (Run seed_cmd # calls es)"
          unfolding seven .
        then show ?thesis
          by blast
      next
        case False
        have m: "main a env db = migration_step a env ?w0"
          using ns by (simp add: main_def)
        have "calls (trace (snd (main a env db))) =
            (calls (trace (drop_all_tables env ?w0)) @ [Run migration_cmd]) @ []"
          unfolding m migration_step_failed(2) [OF Inr False] calls_append by simp
        then have "calls (trace (snd (main a env db))) = ?seven @ []"
          unfolding seven .
        then show ?thesis
          by blast
      qed
    qed
  qed
qed

theorem drops_never_abort_witness:
  "''users'' \<in> set tables_to_drop
   \<and> execute_raises refusing_env (drop_table_sql ''users'') = Some (Exception ''no such table'')
   \<and> \<not> skip_drop plain_args
   \<and> Print (''   '' @ warning_sign @ ''  Error dropping '' @ ''users'' @ '': ''
             @ str_exn (Exception ''no such table''))
        \<in> set (trace (drop_all_tables refusing_env \<lparr>trace = [], store = empty_db\<rparr>))
   \<and> (\<exists>rest. calls (trace (snd (main plain_args refusing_env empty_db))) =
           [Execute ''DROP TABLE IF EXISTS positions CASCADE'',
            Execute ''DROP TABLE IF EXISTS accounts CASCADE'',
            Execute ''DROP TABLE IF EXISTS jobs CASCADE'',
            Execute ''DROP TABLE IF EXISTS instruments CASCADE'',
            Execute ''DROP TABLE IF EXISTS users CASCADE'',
            Execute ''DROP FUNCTION IF EXISTS update_updated_at_column() CASCADE'',
            Run migration_cmd] @ rest)"
proof -
  have h1: "''users'' \<in> set tables_to_drop"
    by (simp add: tables_to_drop_def)
  have h2: "execute_raises refusing_env (drop_table_sql ''users'') = Some (Exception ''no such table'')"
    by (simp add: refusing_env_def quiet_env_def)
  have h3: "\<not> skip_drop plain_args"
    by (simp add: plain_args_def)
  from drops_never_abort [of refusing_env "\<lparr>trace = [], store = empty_db\<rparr>" plain_args empty_db]
    h1 h2 h3 show ?thesis
    by blast
qed

section \<open>C6: the exit status\<close>




section \<open>C7: the fixture on fresh tables\<close>

text \<open>
  C7. When the tables hold no user \<open>test_user_001\<close>, no account of that user and no
  position, \<open>create_test_data\<close> returns without an exception and leaves exactly the
  fixed fixture behind: the user row of \<open>test_user_001\<close> is appended (and is the only
  row with that clerk id), the three accounts 401(k), Roth IRA and Taxable Brokerage
  are appended in this order and are the accounts of the user, and the positions are
  the five rows SPY 100, QQQ 50, BND 200, VEA 150, GLD 25, each attached to the first
  of the three new accounts.
\<close>

theorem fresh_fixture:
  assumes "find_by_clerk_id ''test_user_001'' (store w) = None"
    and "find_by_user ''test_user_001'' (store w) = []"
    and "positions (store w) = []"
  shows "fst (create_test_data w) = Inr ()
    \<and> store (snd (create_test_data w)) =
        \<lparr>users = users (store w) @ [test_user_row],
         accounts = accounts (store w) @ new_accounts (next_account_id (store w)),
         positions = new_positions (next_account_id (store w)),
         next_account_id = next_account_id (store w) + 3\<rparr>
    \<and> filter (\<lambda>u. user_clerk_id u = ''test_user_001'') (users (store (snd (create_test_data w))))
        = [test_user_row]
    \<and> map acc_name (find_by_user ''test_user_001'' (store (snd (create_test_data w))))
        = [''401(k)'', ''Roth IRA'', ''Taxable Brokerage'']
    \<and> map (\<lambda>p. (pos_symbol p, pos_quantity p)) (positions (store (snd (create_test_data w))))
        = [(''SPY'', Decimal 100 0), (''QQQ'', Decimal 50 0), (''BND'', Decimal 200 0),
           (''VEA'', Decimal 150 0), (''GLD'', Decimal 25 0)]
    \<and> map pos_account_id (positions (store (snd (create_test_data w))))
        = replicate 5 (acc_id (hd (find_by_user ''test_user_001'' (store (snd (create_test_data w))))))"
proof -
  let ?db = "store (snd (create_test_data w))"
  have fa: "first_account_id (store w) = next_account_id (store w)"
    using assms(2) by (simp add: first_account_id_def)
  have np: "find_by_account (first_account_id (store w)) (store w) = []"
    using assms(3) by (simp add: find_by_account_def)
  have u: "users ?db = users (store w) @ [test_user_row]"
    using assms(1) by (simp add: users_create_test_data_cases)
  have a: "accounts ?db = accounts (store w) @ new_accounts (next_account_id (store w))"
    using assms(2) by (simp add: accounts_create_test_data_cases)
  have p: "positions ?db = new_positions (next_account_id (store w))"
    using np assms(3) fa by (simp add: positions_create_test_data)
  have n: "next_account_id ?db = next_account_id (store w) + 3"
    using assms(2) by (simp add: next_account_id_create_test_data)
  have none: "filter (\<lambda>u. user_clerk_id u = ''test_user_001'') (users (store w)) = []"
    using assms(1) by (auto simp add: find_by_clerk_id_def find_None_iff filter_empty_conv)
  have noacc: "filter (\<lambda>a. acc_clerk_user_id a = ''test_user_001'') (accounts (store w)) = []"
    using assms(2) by (simp add: find_by_user_def)
  have s: "?db = \<lparr>users = users (store w) @ [test_user_row],
         accounts = accounts (store w) @ new_accounts (next_account_id (store w)),
         positions = new_positions (next_account_id (store w)),
         next_account_id = next_account_id (store w) + 3\<rparr>"
    using u a p n by (intro database.equality) simp_all
  have fu: "find_by_user ''test_user_001'' ?db = new_accounts (next_account_id (store w))"
    using a noacc by (simp add: find_by_user_def new_accounts_def)
  have c3: "filter (\<lambda>u. user_clerk_id u = ''test_user_001'') (users ?db) = [test_user_row]"
    using none by (simp add: u test_user_row_def)
  have c4: "map acc_name (find_by_user ''test_user_001'' ?db)
      = [''401(k)'', ''Roth IRA'', ''Taxable Brokerage'']"
    by (simp add: fu new_accounts_def)
  have c5: "map (\<lambda>p. (pos_symbol p, pos_quantity p)) (positions ?db)
      = [(''SPY'', Decimal 100 0), (''QQQ'', Decimal 50 0), (''BND'', Decimal 200 0),
         (''VEA'', Decimal 150 0), (''GLD'', Decimal 25 0)]"
    by (simp add: p new_positions_def)
  have c6: "map pos_account_id (positions ?db)
      = replicate 5 (acc_id (hd (find_by_user ''test_user_001'' ?db)))"
    by (simp add: p fu new_positions_def new_accounts_def numeral_eq_Suc)
  from create_test_data_ok s c3 c4 c5 c6 show ?thesis
    by blast
qed

theorem fresh_fixture_witness:
  "find_by_clerk_id ''test_user_001'' empty_db = None
   \<and> find_by_user ''test_user_001'' empty_db = []
   \<and> positions empty_db = []
   \<and> store (snd (create_test_data \<lparr>trace = [], store = empty_db\<rparr>)) =
        \<lparr>users = [test_user_row], accounts = new_accounts 1, positions = new_positions 1,
         next_account_id = 4\<rparr>"
proof -
  have h1: "find_by_clerk_id ''test_user_001'' (store \<lparr>trace = [], store = empty_db\<rparr>) = None"
    by (simp add: find_by_clerk_id_def empty_db_def)
  have h2: "find_by_user ''test_user_001'' (store \<lparr>trace = [], store = empty_db\<rparr>) = []"
    by (simp add: find_by_user_def empty_db_def)
  have h3: "positions (store \<lparr>trace = [], store = empty_db\<rparr>) = []"
    by (simp add: empty_db_def)
  from fresh_fixture [OF h1 h2 h3] h1 h2 h3 show ?thesis
    by (simp add: empty_db_def)
qed

section \<open>C8: the verification report\<close>

text \<open>
  C8. The verification changes no table and adds to the trace nothing but queries and
  printed lines: no statement is executed, no command is run, the repository layer is
  not called. When every count query is answered (with no row, or with a first row
  that has the column \<open>count\<close>), it issues exactly the five count queries, for users,
  instruments, accounts, positions and jobs in this order, prints for each table the
  count its first row holds (0 when there is no row) and lets the run return with exit
  status 0, whatever the counts are, zero included. In a run in which the seed step is
  reached and returns 0, the verification is the last step: the run is the
  verification started from a world in which no query has yet been issued.
\<close>

theorem verification_report:
  "store (snd (verification a env w)) = store w
   \<and> executed (trace (snd (verification a env w))) = executed (trace w)
   \<and> run_cmds (trace (snd (verification a env w))) = run_cmds (trace w)
   \<and> repo_calls (trace (snd (verification a env w))) = repo_calls (trace w)
   \<and> ((\<forall>t\<in>set tables. \<exists>rows. query_result env (count_sql t) = Inr rows
          \<and> (rows = [] \<or> (\<exists>c. map_of (hd rows) ''count'' = Some c))) \<longrightarrow>
        fst (verification a env w) = Returned
        \<and> exit_status (fst (verification a env w)) = 0
        \<and> calls (trace (snd (verification a env w))) =
            calls (trace w)
            @ [Query ''SELECT COUNT(*) as count FROM users'',
               Query ''SELECT COUNT(*) as count FROM instruments'',
               Query ''SELECT COUNT(*) as count FROM accounts'',
               Query ''SELECT COUNT(*) as count FROM positions'',
               Query ''SELECT COUNT(*) as count FROM jobs'']
        \<and> (\<forall>t\<in>set tables. \<forall>r rs c.
              query_result env (count_sql t) = Inr (r # rs) \<longrightarrow> map_of r ''count'' = Some c \<longrightarrow>
              Print (''   '' @ bullet @ '' '' @ t @ '': '' @ str_int c @ '' records'')
                \<in> set (trace (snd (verification a env w))))
        \<and> (\<forall>t\<in>set tables.
              query_result env (count_sql t) = Inr [] \<longrightarrow>
              Print (''   '' @ bullet @ '' '' @ t @ '': 0 records'')
                \<in> set (trace (snd (verification a env w)))))
   \<and> ((skip_drop a \<or> (\<exists>m. run_result env migration_cmd = Inr m \<and> returncode m = 0))
        \<and> (\<exists>s. run_result env seed_cmd = Inr s \<and> returncode s = 0) \<longrightarrow>
        (\<exists>w'. main a env db = verification a env w' \<and> queried (trace w') = []))"
proof (intro conjI)
  show "store (snd (verification a env w)) = store w"
    by (rule store_verification)
  show "executed (trace (snd (verification a env w))) = executed (trace w)"
    "run_cmds (trace (snd (verification a env w))) = run_cmds (trace w)"
    "repo_calls (trace (snd (verification a env w))) = repo_calls (trace w)"
    by (rule verification_extends)+
next
  show "(\<forall>t\<in>set tables. \<exists>rows. query_result env (count_sql t) = Inr rows
          \<and> (rows = [] \<or> (\<exists>c. map_of (hd rows) ''count'' = Some c))) \<longrightarrow>
        fst (verification a env w) = Returned
        \<and> exit_status (fst (verification a env w)) = 0
        \<and> calls (trace (snd (verification a env w))) =
            calls (trace w)
            @ [Query ''SELECT COUNT(*) as count FROM users'',
               Query ''SELECT COUNT(*) as count FROM instruments'',
               Query ''SELECT COUNT(*) as count FROM accounts'',
               Query ''SELECT COUNT(*) as count FROM positions'',
               Query ''SELECT COUNT(*) as count FROM jobs'']
        \<and> (\<forall>t\<in>set tables. \<forall>r rs c.
              query_result env (count_sql t) = Inr (r # rs) \<longrightarrow> map_of r ''count'' = Some c \<longrightarrow>
              Print (''   '' @ bullet @ '' '' @ t @ '': '' @ str_int c @ '' records'')
                \<in> set (trace (snd (verification a env w))))
        \<and> (\<forall>t\<in>set tables.
              query_result env (count_sql t) = Inr [] \<longrightarrow>
              Print (''   '' @ bullet @ '' '' @ t @ '': 0 records'')
                \<in> set (trace (snd (verification a env w))))"
  proof
    assume h: "\<forall>t\<in>set tables. \<exists>rows. query_result env (count_sql t) = Inr rows
          \<and> (rows = [] \<or> (\<exists>c. map_of (hd rows) ''count'' = Some c))"
    note ok = verification_ok [OF rows_answered [OF h], of a w]
    have five: "map (\<lambda>t. Query (count_sql t)) tables =
        [Query ''SELECT COUNT(*) as count FROM users'',
         Query ''SELECT COUNT(*) as count FROM instruments'',
         Query ''SELECT COUNT(*) as count FROM accounts'',
         Query ''SELECT COUNT(*) as count FROM positions'',
         Query ''SELECT COUNT(*) as count FROM jobs'']"
      by (simp add: tables_def count_sql_def)
    have c: "calls (trace (snd (verification a env w))) =
            calls (trace w)
            @ [Query ''SELECT COUNT(*) as count FROM users'',
               Query ''SELECT COUNT(*) as count FROM instruments'',
               Query ''SELECT COUNT(*) as count FROM accounts'',
               Query ''SELECT COUNT(*) as count FROM positions'',
               Query ''SELECT COUNT(*) as count FROM jobs'']"
      using ok(2) unfolding five .
    have e: "exit_status (fst (verification a env w)) = 0"
      by (simp add: ok(1))
    have p: "\<forall>t\<in>set tables. \<forall>r rs c.
              query_result env (count_sql t) = Inr (r # rs) \<longrightarrow> map_of r ''count'' = Some c \<longrightarrow>
              Print (''   '' @ bullet @ '' '' @ t @ '': '' @ str_int c @ '' records'')
                \<in> set (trace (snd (verification a env w)))"
    proof (intro ballI allI impI)
      fix t r rs c
      assume t: "t \<in> set tables" and q: "query_result env (count_sql t) = Inr (r # rs)"
        and f: "map_of r ''count'' = Some c"
      have "count_of env t = Inr c"
        using q f by (simp add: count_of_def first_count_Cons)
      then have "count_line t (projr (count_of env t)) =
          ''   '' @ bullet @ '' '' @ t @ '': '' @ str_int c @ '' records''"
        by (simp add: count_line_def)
      then show "Print (''   '' @ bullet @ '' '' @ t @ '': '' @ str_int c @ '' records'')
                \<in> set (trace (snd (verification a env w)))"
        using ok(3) t by metis
    qed
    have z: "\<forall>t\<in>set tables.
              query_result env (count_sql t) = Inr [] \<longrightarrow>
              Print (''   '' @ bullet @ '' '' @ t @ '': 0 records'')
                \<in> set (trace (snd (verification a env w)))"
    proof (intro ballI impI)
      fix t
      assume t: "t \<in> set tables" and q: "query_result env (count_sql t) = Inr []"
      have "count_of env t = Inr 0"
        using q by (simp add: count_of_def first_count_Nil)
      then have "count_line t (projr (count_of env t)) =
          ''   '' @ bullet @ '' '' @ t @ '': 0 records''"
        by (simp add: count_line_zero)
      then show "Print (''   '' @ bullet @ '' '' @ t @ '': 0 records'')
                \<in> set (trace (snd (verification a env w)))"
        using ok(3) t by metis
    qed
    from ok(1) e c p z
    show "fst (verification a env w) = Returned
        \<and> exit_status (fst (verification a env w)) = 0
        \<and> calls (trace (snd (verification a env w))) =
            calls (trace w)
            @ [Query ''SELECT COUNT(*) as count FROM users'',
               Query ''SELECT COUNT(*) as count FROM instruments'',
               Query ''SELECT COUNT(*) as count FROM accounts'',
               Query ''SELECT COUNT(*) as count FROM positions'',
               Query ''SELECT COUNT(*) as count FROM jobs'']
        \<and> (\<forall>t\<in>set tables. \<forall>r rs c.
              query_result env (count_sql t) = Inr (r # rs) \<longrightarrow> map_of r ''count'' = Some c \<longrightarrow>
              Print (''   '' @ bullet @ '' '' @ t @ '': '' @ str_int c @ '' records'')
                \<in> set (trace (snd (verification a env w))))
        \<and> (\<forall>t\<in>set tables.
              query_result env (count_sql t) = Inr [] \<longrightarrow>
              Print (''   '' @ bullet @ '' '' @ t @ '': 0 records'')
                \<in> set (trace (snd (verification a env w))))"
      by blast
  qed
next
  show "(skip_drop a \<or> (\<exists>m. run_result env migration_cmd = Inr m \<and> returncode m = 0))
        \<and> (\<exists>s. run_result env seed_cmd = Inr s \<and> returncode s = 0) \<longrightarrow>
        (\<exists>w'. main a env db = verification a env w' \<and> queried (trace w') = [])"
  proof
    assume h: "(skip_drop a \<or> (\<exists>m. run_result env migration_cmd = Inr m \<and> returncode m = 0))
        \<and> (\<exists>s. run_result env seed_cmd = Inr s \<and> returncode s = 0)"
    then have reach: "skip_drop a \<or> (\<exists>m. run_result env migration_cmd = Inr m \<and> returncode m = 0)"
      by blast
    from h obtain s where s: "run_result env seed_cmd = Inr s" "returncode s = 0"
      by blast
    have "main a env db = verification a env (before_report a env db)"
      by (rule main_reaches_report [OF reach s])
    moreover have "queried (trace (before_report a env db)) = []"
      by (rule observe_before_report(3))
    ultimately show "\<exists>w'. main a env db = verification a env w' \<and> queried (trace w') = []"
      by blast
  qed
qed

theorem verification_report_witness:
  "''instruments'' \<in> set tables
   \<and> query_result counting_env (count_sql ''instruments'') = Inr [[(''count'', 22)]]
   \<and> map_of [(''count'', 22 :: int)] ''count'' = Some 22
   \<and> ''jobs'' \<in> set tables
   \<and> query_result counting_env (count_sql ''jobs'') = Inr [[(''count'', 0)]]
   \<and> map_of [(''count'', 0 :: int)] ''count'' = Some 0
   \<and> run_result counting_env migration_cmd = Inr ok_process
   \<and> run_result counting_env seed_cmd = Inr ok_process
   \<and> returncode ok_process = 0
   \<and> fst (verification plain_args counting_env \<lparr>trace = [], store = empty_db\<rparr>) = Returned
   \<and> exit_status (fst (verification plain_args counting_env \<lparr>trace = [], store = empty_db\<rparr>)) = 0
   \<and> Print (''   '' @ bullet @ '' instruments: 22 records'')
        \<in> set (trace (snd (verification plain_args counting_env \<lparr>trace = [], store = empty_db\<rparr>)))
   \<and> Print (''   '' @ bullet @ '' jobs: 0 records'')
        \<in> set (trace (snd (verification plain_args counting_env \<lparr>trace = [], store = empty_db\<rparr>)))
   \<and> (\<exists>w'. main plain_args counting_env empty_db = verification plain_args counting_env w'
          \<and> queried (trace w') = [])"
proof -
  let ?w = "\<lparr>trace = [], store = empty_db\<rparr>"
  have h1: "''instruments'' \<in> set tables" and h2: "''jobs'' \<in> set tables"
    by (simp_all add: tables_def)
  have q1: "query_result counting_env (count_sql ''instruments'') = Inr [[(''count'', 22)]]"
    by (simp add: counting_env_def)
  have q2: "query_result counting_env (count_sql ''jobs'') = Inr [[(''count'', 0)]]"
    by (simp add: counting_env_def count_sql_def)
  have m1: "map_of [(''count'', 22 :: int)] ''count'' = Some 22"
    and m2: "map_of [(''count'', 0 :: int)] ''count'' = Some 0"
    by simp_all
  have r1: "run_result counting_env migration_cmd = Inr ok_process"
    and r2: "run_result counting_env seed_cmd = Inr ok_process"
    by (simp_all add: counting_env_def quiet_env_def)
  have r3: "returncode ok_process = 0"
    by (simp add: ok_process_def)
  have all: "\<forall>t\<in>set tables. \<exists>rows. query_result counting_env (count_sql t) = Inr rows
          \<and> (rows = [] \<or> (\<exists>c. map_of (hd rows) ''count'' = Some c))"
    by (simp add: counting_env_def tables_def)
  note inst = verification_report [of plain_args counting_env ?w empty_db]
  from inst all have ret: "fst (verification plain_args counting_env ?w) = Returned
      \<and> exit_status (fst (verification plain_args counting_env ?w)) = 0"
    by blast
  from inst all h1 q1 m1
  have "Print (''   '' @ bullet @ '' '' @ ''instruments'' @ '': '' @ str_int 22 @ '' records'')
      \<in> set (trace (snd (verification plain_args counting_env ?w)))"
    by blast
  then have p1: "Print (''   '' @ bullet @ '' instruments: 22 records'')
      \<in> set (trace (snd (verification plain_args counting_env ?w)))"
    by (simp add: str_int_22)
  from inst all h2 q2 m2
  have "Print (''   '' @ bullet @ '' '' @ ''jobs'' @ '': '' @ str_int 0 @ '' records'')
      \<in> set (trace (snd (verification plain_args counting_env ?w)))"
    by blast
  then have p2: "Print (''   '' @ bullet @ '' jobs: 0 records'')
      \<in> set (trace (snd (verification plain_args counting_env ?w)))"
    by (simp add: str_int_zero)
  from inst r1 r2 r3
  have last: "\<exists>w'. main plain_args counting_env empty_db = verification plain_args counting_env w'
          \<and> queried (trace w') = []"
    by blast
  from h1 q1 m1 h2 q2 m2 r1 r2 r3 ret p1 p2 last show ?thesis
    by blast
qed

section \<open>C9: a query that returns no row\<close>

text \<open>
  C9. The count read from a result is guarded: an empty result gives the count 0
  without reading a first row, and only a result with a first row is indexed. So when
  the query of a table returns no row, the turn of the verification loop for that table
  does not raise and prints the count 0 for the table; and when every query returns no
  row, the verification as a whole lets the run return.
\<close>

theorem empty_result_counts_zero:
  "first_count [] = Inr 0
   \<and> (query_result env (count_sql table) = Inr [] \<longrightarrow>
        verify_table env table w =
          (Inr (), print (''   '' @ bullet @ '' '' @ table @ '': 0 records'')
                     (emit (Query (count_sql table)) w)))
   \<and> ((\<forall>t\<in>set tables. query_result env (count_sql t) = Inr []) \<longrightarrow>
        fst (verification a env w) = Returned
        \<and> (\<forall>t\<in>set tables. Print (''   '' @ bullet @ '' '' @ t @ '': 0 records'')
              \<in> set (trace (snd (verification a env w)))))"
proof (intro conjI impI)
  show z: "first_count [] = Inr 0"
    by (simp add: first_count_def)
  show "verify_table env table w =
          (Inr (), print (''   '' @ bullet @ '' '' @ table @ '': 0 records'')
                     (emit (Query (count_sql table)) w))"
    if "query_result env (count_sql table) = Inr []"
    using that z by (simp add: verify_table_eq count_of_def count_line_zero)
  assume h: "\<forall>t\<in>set tables. query_result env (count_sql t) = Inr []"
  then have c: "\<forall>t\<in>set tables. count_of env t = Inr 0"
    using z by (simp add: count_of_def)
  then have "\<forall>t\<in>set tables. \<exists>c. count_of env t = Inr c"
    by blast
  note ok = verification_ok [OF this, of a w]
  show "fst (verification a env w) = Returned"
    by (rule ok(1))
  show "\<forall>t\<in>set tables. Print (''   '' @ bullet @ '' '' @ t @ '': 0 records'')
              \<in> set (trace (snd (verification a env w)))"
  proof
    fix t
    assume t: "t \<in> set tables"
    then have "count_line t (projr (count_of env t)) = ''   '' @ bullet @ '' '' @ t @ '': 0 records''"
      using c by (simp add: count_line_zero)
    then show "Print (''   '' @ bullet @ '' '' @ t @ '': 0 records'')
              \<in> set (trace (snd (verification a env w)))"
      using ok(3) t by metis
  qed
qed

theorem empty_result_counts_zero_witness:
  "query_result no_rows_env (count_sql ''users'') = Inr []
   \<and> query_result no_rows_env (count_sql ''jobs'') = Inr []
   \<and> verify_table no_rows_env ''users'' \<lparr>trace = [], store = empty_db\<rparr> =
          (Inr (), print (''   '' @ bullet @ '' '' @ ''users'' @ '': 0 records'')
                     (emit (Query (count_sql ''users'')) \<lparr>trace = [], store = empty_db\<rparr>))
   \<and> fst (verification plain_args no_rows_env \<lparr>trace = [], store = empty_db\<rparr>) = Returned"
proof -
  have h1: "query_result no_rows_env (count_sql ''users'') = Inr []"
    by (simp add: no_rows_env_def)
  have h2: "\<forall>t\<in>set tables. query_result no_rows_env (count_sql t) = Inr []"
    by (simp add: no_rows_env_def)
  have h3: "query_result no_rows_env (count_sql ''jobs'') = Inr []"
    by (simp add: no_rows_env_def)
  from empty_result_counts_zero
    [of no_rows_env "''users''" "\<lparr>trace = [], store = empty_db\<rparr>" plain_args] h1 h2 h3
  show ?thesis
    by blast
qed

section \<open>C10: the positions are always looked at\<close>

text \<open>
  C10. In \<open>create_test_data\<close> the list \<open>account_ids\<close> is never empty where the guard
  \<open>if account_ids\<close> reads it: whenever the accounts part returns a list, the list is not
  empty (it holds the ids of the accounts found, or the three new ids). So the guarded
  part always runs: \<open>create_test_data\<close> is the positions part on a list with a first
  id, its trace always has the lookup of the positions of that account, and it returns
  without an exception.
\<close>

theorem account_ids_never_empty:
  "(\<forall>ids. fst (create_test_accounts w) = Inr ids \<longrightarrow> ids \<noteq> [])
   \<and> (\<exists>aid others. create_test_data w = create_test_positions (aid # others) (after_accounts w))
   \<and> (\<exists>aid before rest.
         trace (snd (create_test_data w)) = trace w @ before @ FindByAccount aid # rest)
   \<and> fst (create_test_data w) = Inr ()"
proof (intro conjI)
  show "\<forall>ids. fst (create_test_accounts w) = Inr ids \<longrightarrow> ids \<noteq> []"
  proof (cases "find_by_user ''test_user_001'' (store w) = []")
    case True
    show ?thesis
    proof (cases "find_by_clerk_id ''test_user_001'' (store w)")
      case None
      then show ?thesis
        by (simp add: create_test_accounts_no_user [OF None True])
    next
      case (Some u)
      then show ?thesis
        by (simp add: create_test_accounts_fresh(1) [OF Some True])
    qed
  next
    case False
    then show ?thesis
      by (simp add: create_test_accounts_existing)
  qed
next
  obtain a rest where ar: "find_by_user ''test_user_001'' (store (after_accounts w)) = a # rest"
    using accounts_exist_after_accounts [of w]
    by (cases "find_by_user ''test_user_001'' (store (after_accounts w))") auto
  have "create_test_data w =
      create_test_positions (acc_id a # map acc_id rest) (after_accounts w)"
    by (simp add: create_test_data_eq ar)
  then show "\<exists>aid others. create_test_data w = create_test_positions (aid # others) (after_accounts w)"
    by blast
  have "\<exists>rest. position_events (store (after_accounts w)) = FindByAccount (acc_id a) # rest"
    by (simp add: position_events_def ar)
  then obtain rest' where "position_events (store (after_accounts w)) = FindByAccount (acc_id a) # rest'"
    by blast
  then have "trace (snd (create_test_data w)) =
      trace w @ (user_events (store w) @ account_events (store (after_user w)))
        @ FindByAccount (acc_id a) # rest'"
    by (simp add: trace_create_test_data)
  then show "\<exists>aid before rest.
      trace (snd (create_test_data w)) = trace w @ before @ FindByAccount aid # rest"
    by blast
next
  show "fst (create_test_data w) = Inr ()"
    by (rule create_test_data_ok)
qed

theorem account_ids_never_empty_witness:
  "fst (create_test_accounts \<lparr>trace = [], store = user_only_db\<rparr>) = Inr [1, 2, 3]
   \<and> [1, 2, 3 :: nat] \<noteq> []
   \<and> fst (create_test_data \<lparr>trace = [], store = user_only_db\<rparr>) = Inr ()"
proof -
  let ?w = "\<lparr>trace = [], store = user_only_db\<rparr>"
  have u: "find_by_clerk_id ''test_user_001'' (store ?w) = Some test_user_row"
    by (simp add: find_by_clerk_id_def user_only_db_def test_user_row_def)
  have n: "find_by_user ''test_user_001'' (store ?w) = []"
    by (simp add: find_by_user_def user_only_db_def)
  have h: "fst (create_test_accounts ?w) = Inr [1, 2, 3]"
    using create_test_accounts_fresh(1) [OF u n] by (simp add: user_only_db_def)
  from account_ids_never_empty [of ?w] h show ?thesis
    by simp
qed

end
